theory Spec2Isabelle
  imports Main "HOL-Library.Word"
begin

section \<open>JavaScript strings\<close>

text \<open>
  A JavaScript string is a sequence of UTF-16 code units; \<open>s.length\<close> counts code units.
  \<open>str\<close> turns an ASCII literal into such a string.
\<close>

type_synonym jsstring = "16 word list"

definition str :: "string \<Rightarrow> jsstring" where
  "str s = map of_char s"

text \<open>\<open>String.prototype.split\<close> with a separator of one code unit: never the empty array.\<close>

fun js_split :: "16 word \<Rightarrow> jsstring \<Rightarrow> jsstring list" where
  "js_split c [] = [[]]"
| "js_split c (x # xs) =
     (if x = c then [] # js_split c xs
      else (case js_split c xs of [] \<Rightarrow> [[x]] | y # ys \<Rightarrow> (x # y) # ys))"

text \<open>\<open>Array.prototype.join\<close> with a separator of one code unit.\<close>

fun js_join :: "16 word \<Rightarrow> jsstring list \<Rightarrow> jsstring" where
  "js_join c [] = []"
| "js_join c [l] = l"
| "js_join c (l # m # ls) = l @ c # js_join c (m # ls)"

text \<open>The code units that \<open>String.prototype.trim\<close> strips: WhiteSpace and LineTerminator.\<close>

definition isWhiteSpace :: "16 word \<Rightarrow> bool" where
  "isWhiteSpace u \<longleftrightarrow>
     u \<in> {0x09, 0x0A, 0x0B, 0x0C, 0x0D, 0x20, 0xA0, 0x1680, 0x2028, 0x2029, 0x202F, 0x205F,
          0x3000, 0xFEFF}
     \<or> (0x2000 \<le> u \<and> u \<le> 0x200A)"

definition js_trim :: "jsstring \<Rightarrow> jsstring" where
  "js_trim s = rev (dropWhile isWhiteSpace (rev (dropWhile isWhiteSpace s)))"

definition js_startsWith :: "jsstring \<Rightarrow> jsstring \<Rightarrow> bool" where
  "js_startsWith s p \<longleftrightarrow> take (length p) s = p"

text \<open>
  \<open>String.prototype.toLowerCase\<close> on the letters A to Z. The results are only compared with
  ASCII literals ("false", "text/feed"), whose letters no code unit outside A to Z maps to.
\<close>

definition toLowerCase :: "jsstring \<Rightarrow> jsstring" where
  "toLowerCase s = map (\<lambda>u. if 0x41 \<le> u \<and> u \<le> 0x5A then u + 0x20 else u) s"

text \<open>
  The number of bytes of the UTF-8 encoding of a string: one byte below U+0080, two below
  U+0800, four for a surrogate pair, three for every other code unit.
\<close>

definition unitBytes :: "16 word \<Rightarrow> nat" where
  "unitBytes u = (if u < 0x80 then 1 else if u < 0x800 then 2 else 3)"

definition isHighSurrogate :: "16 word \<Rightarrow> bool" where
  "isHighSurrogate u \<longleftrightarrow> 0xD800 \<le> u \<and> u \<le> 0xDBFF"

definition isLowSurrogate :: "16 word \<Rightarrow> bool" where
  "isLowSurrogate u \<longleftrightarrow> 0xDC00 \<le> u \<and> u \<le> 0xDFFF"

fun utf8ByteLength :: "jsstring \<Rightarrow> nat" where
  "utf8ByteLength [] = 0"
| "utf8ByteLength [u] = unitBytes u"
| "utf8ByteLength (u # v # us) =
     (if isHighSurrogate u \<and> isLowSurrogate v then 4 + utf8ByteLength us
      else unitBytes u + utf8ByteLength (v # us))"

section \<open>Collaborators that the sources call and do not define\<close>

text \<open>
  The response of \<open>window.fetch\<close>: \<open>resp_body = None\<close> stands for a \<open>text()\<close> that rejects.
  The header map is keyed by lower-case header names, as \<open>Headers.get\<close> ignores case.
\<close>

record http_response =
  resp_ok :: bool
  resp_headers :: "jsstring \<rightharpoonup> jsstring"
  resp_body :: "jsstring option"

text \<open>The request that \<open>getHttpContent\<close> builds: a GET with the two no-cache headers and,
  for a positive starting byte, the header \<open>range: bytes=N-\<close>.\<close>

record http_request =
  req_url :: jsstring
  req_pragma :: jsstring
  req_cache_control :: jsstring
  req_range_from :: "int option"

text \<open>An element as a callback sees it: its \<open>nodeName\<close> and its attributes.\<close>

record element =
  el_nodeName :: jsstring
  el_attrs :: "jsstring \<rightharpoonup> jsstring"

text \<open>
  The \<open>Url\<close> module, \<open>window.fetch\<close>, the \<open>URL\<close> constructor, the document reader and the
  Omniview library are parameters of the model:
  \<^item> \<open>Url_resolve rel base\<close>, \<open>Url_folderOf url\<close>, \<open>Url_getCurrent\<close>;
  \<^item> \<open>window_fetch req\<close>, \<open>None\<close> when the promise rejects;
  \<^item> \<open>new_URL rel base\<close> is \<open>new URL(rel, base).toString()\<close>, \<open>None\<close> when the constructor
    throws a TypeError;
  \<^item> \<open>reader_elements html\<close>: the elements that a \<open>ForeignDocumentReader\<close> over \<open>html\<close>
    hands to the function registered with \<open>trapElement\<close>, in order;
  \<^item> \<open>Omniview_defined\<close>: whether \<open>typeof Omniview\<close> is not "undefined".
\<close>

record env =
  Url_resolve :: "jsstring \<Rightarrow> jsstring \<Rightarrow> jsstring"
  Url_folderOf :: "jsstring \<Rightarrow> jsstring"
  Url_getCurrent :: jsstring
  window_fetch :: "http_request \<Rightarrow> http_response option"
  new_URL :: "jsstring \<Rightarrow> jsstring \<Rightarrow> jsstring option"
  reader_elements :: "jsstring \<Rightarrow> element list"
  Omniview_defined :: bool

section \<open>getHttpContent\<close>

record http_content =
  headers :: "jsstring \<rightharpoonup> jsstring"
  bodyText :: jsstring

definition headers_get :: "(jsstring \<rightharpoonup> jsstring) \<Rightarrow> jsstring \<Rightarrow> jsstring option" where
  "headers_get h name = h (toLowerCase name)"

text \<open>Every failure (a rejected fetch, a status that is not ok, a body that cannot be read)
  is caught and becomes \<open>null\<close>.\<close>

definition httpRequest :: "env \<Rightarrow> jsstring \<Rightarrow> int \<Rightarrow> http_request" where
  "httpRequest E relativeUri startingByte =
     \<lparr>req_url = Url_resolve E relativeUri (Url_getCurrent E),
      req_pragma = str ''no-cache'',
      req_cache_control = str ''no-cache'',
      req_range_from = (if startingByte > 0 then Some startingByte else None)\<rparr>"

definition getHttpContent :: "env \<Rightarrow> jsstring \<Rightarrow> int \<Rightarrow> http_content option" where
  "getHttpContent E relativeUri startingByte =
     (case window_fetch E (httpRequest E relativeUri startingByte) of
        None \<Rightarrow> None
      | Some fetchResult \<Rightarrow>
          if \<not> resp_ok fetchResult then None
          else (case resp_body fetchResult of
                  None \<Rightarrow> None
                | Some t \<Rightarrow> Some \<lparr>headers = resp_headers fetchResult, bodyText = t\<rparr>))"

section \<open>getFeedFromUrl\<close>

record feed_read =
  urls :: "jsstring list"
  bytesRead :: int

text \<open>\<open>a || ""\<close> for a value that is a string or null.\<close>

definition orEmpty :: "jsstring option \<Rightarrow> jsstring" where
  "orEmpty v = (case v of None \<Rightarrow> [] | Some s \<Rightarrow> s)"

text \<open>\<open>xs[0]\<close>: \<open>undefined\<close> on the empty array.\<close>

definition elem0 :: "'a list \<Rightarrow> 'a option" where
  "elem0 xs = (case xs of [] \<Rightarrow> None | x # _ \<Rightarrow> Some x)"

definition feedLines :: "env \<Rightarrow> jsstring \<Rightarrow> jsstring \<Rightarrow> jsstring list" where
  "feedLines E feedUrl t =
     map (\<lambda>s. Url_resolve E s (Url_folderOf E feedUrl))
       (filter (\<lambda>s. \<not> js_startsWith s (str ''#''))
         (filter (\<lambda>s. s \<noteq> [])
           (map js_trim (js_split 0x0A t))))"

text \<open>\<open>(fetchResult.headers.get("Content-Type") || "").split(";")[0]\<close>\<close>

definition mediaType :: "http_content \<Rightarrow> jsstring option" where
  "mediaType fetchResult =
     elem0 (js_split 0x3B (orEmpty (headers_get (headers fetchResult) (str ''Content-Type''))))"

text \<open>The message written with \<open>console.error\<close> on a wrong media type is no part of the
  value returned.\<close>

definition getFeedFromUrl :: "env \<Rightarrow> jsstring \<Rightarrow> int \<Rightarrow> feed_read" where
  "getFeedFromUrl E feedUrl startingByte =
     (case getHttpContent E feedUrl startingByte of
        None \<Rightarrow> \<lparr>urls = [], bytesRead = - 1\<rparr>
      | Some fetchResult \<Rightarrow>
          if mediaType fetchResult \<noteq> Some (str ''text/plain'')
          then \<lparr>urls = [], bytesRead = - 1\<rparr>
          else \<lparr>urls = feedLines E feedUrl (bodyText fetchResult),
                bytesRead = int (length (bodyText fetchResult))\<rparr>)"

section \<open>The DOM\<close>

text \<open>
  Nodes live in a store and are referred to by their address, so that two references to one
  node are two occurrences of one address. The store is a list, an address is an index into
  it, and a new node is put at the end. Only elements, documents and shadow roots are in the
  store.
\<close>

record node =
  nodeName :: jsstring
  attrs :: "jsstring \<rightharpoonup> jsstring"
  children :: "nat list"
  parent :: "nat option"
  shadowRoot :: "nat option"

type_synonym dom = "node list"

definition getAttribute :: "dom \<Rightarrow> nat \<Rightarrow> jsstring \<Rightarrow> jsstring option" where
  "getAttribute d e a = (if e < length d then attrs (d ! e) a else None)"

definition setAttributeValue :: "dom \<Rightarrow> nat \<Rightarrow> jsstring \<Rightarrow> jsstring \<Rightarrow> dom" where
  "setAttributeValue d e a v = d[e := (d ! e)\<lparr>attrs := (attrs (d ! e))(a \<mapsto> v)\<rparr>]"

definition createElement :: "jsstring \<Rightarrow> dom \<Rightarrow> nat \<times> dom" where
  "createElement name d =
     (length d,
      d @ [\<lparr>nodeName = name, attrs = Map.empty, children = [], parent = None,
            shadowRoot = None\<rparr>])"

text \<open>\<open>host.attachShadow({ mode: "open" })\<close>: a new shadow root, which has no parent.\<close>

definition attachShadow :: "nat \<Rightarrow> dom \<Rightarrow> nat \<times> dom" where
  "attachShadow host d =
     (length d,
      (d @ [\<lparr>nodeName = str ''#document-fragment'', attrs = Map.empty, children = [],
             parent = None, shadowRoot = None\<rparr>])
        [host := (d ! host)\<lparr>shadowRoot := Some (length d)\<rparr>])"

text \<open>Taking a node out of its parent, the first step of every insertion of a node.\<close>

definition detach :: "nat \<Rightarrow> dom \<Rightarrow> dom" where
  "detach n d =
     (case parent (d ! n) of
        None \<Rightarrow> d
      | Some p \<Rightarrow>
          (let d1 = d[p := (d ! p)\<lparr>children := removeAll n (children (d ! p))\<rparr>]
           in d1[n := (d1 ! n)\<lparr>parent := None\<rparr>]))"

definition appendChild :: "nat \<Rightarrow> nat \<Rightarrow> dom \<Rightarrow> dom" where
  "appendChild p n d =
     (if p < length d \<and> n < length d
      then (let d1 = detach n d;
                d2 = d1[p := (d1 ! p)\<lparr>children := children (d1 ! p) @ [n]\<rparr>]
            in d2[n := (d2 ! n)\<lparr>parent := Some p\<rparr>])
      else d)"

text \<open>\<open>p.append(...ns)\<close>: the nodes are moved under \<open>p\<close> one after the other, in order.\<close>

definition append_nodes :: "nat \<Rightarrow> nat list \<Rightarrow> dom \<Rightarrow> dom" where
  "append_nodes p ns d = foldl (\<lambda>d' n. appendChild p n d') d ns"

text \<open>
  The descendants of a node in document order, the node itself left out. A tree of the
  store is no deeper than the store is long, which bounds the descent; a node list holds
  every node once.
\<close>

primrec descendantsUpTo :: "nat \<Rightarrow> dom \<Rightarrow> nat \<Rightarrow> nat list" where
  "descendantsUpTo 0 d n = []"
| "descendantsUpTo (Suc k) d n =
     (if n < length d
      then concat (map (\<lambda>c. c # descendantsUpTo k d c) (children (d ! n)))
      else [])"

definition descendants :: "dom \<Rightarrow> nat \<Rightarrow> nat list" where
  "descendants d n = remdups (descendantsUpTo (length d) d n)"

text \<open>
  The selectors of the sources: a list of alternatives, each a type selector with attribute
  tests. The type selector is compared with \<open>nodeName\<close>, which for an HTML element is the
  tag name in upper case, as the selectors of the sources are written. \<open>[a]\<close> is
  \<open>HasAttr a\<close>; \<open>[rel=feed]\<close> is \<open>AttrIs\<close>, and compares ignoring ASCII case, as an HTML
  document does for the values of \<open>rel\<close>.
\<close>

datatype attr_test = HasAttr jsstring | AttrIs jsstring jsstring

datatype compound = Compound jsstring "attr_test list"

type_synonym selector = "compound list"

fun attrTest :: "node \<Rightarrow> attr_test \<Rightarrow> bool" where
  "attrTest nd (HasAttr a) = (attrs nd a \<noteq> None)"
| "attrTest nd (AttrIs a v) =
     (case attrs nd a of None \<Rightarrow> False | Some w \<Rightarrow> toLowerCase w = toLowerCase v)"

fun matchesCompound :: "node \<Rightarrow> compound \<Rightarrow> bool" where
  "matchesCompound nd (Compound tag tests) = (nodeName nd = tag \<and> list_all (attrTest nd) tests)"

definition matches :: "dom \<Rightarrow> selector \<Rightarrow> nat \<Rightarrow> bool" where
  "matches d sel e \<longleftrightarrow> e < length d \<and> list_ex (matchesCompound (d ! e)) sel"

text \<open>\<open>Array.from(container.querySelectorAll(selector))\<close>\<close>

definition getElements :: "dom \<Rightarrow> selector \<Rightarrow> nat \<Rightarrow> nat list" where
  "getElements d sel container = filter (matches d sel) (descendants d container)"

section \<open>getFeedsFromDocument\<close>

record IFeedInfo =
  subscribable :: bool
  visible :: bool
  href :: jsstring

text \<open>\<open>LINK[rel=feed]\<close>\<close>

definition sel_feed_links :: selector where
  "sel_feed_links = [Compound (str ''LINK'') [AttrIs (str ''rel'') (str ''feed'')]]"

text \<open>The loop over the feed links; \<open>feeds\<close> is the array that \<open>push\<close> extends.\<close>

fun feedsLoop :: "dom \<Rightarrow> nat list \<Rightarrow> IFeedInfo list \<Rightarrow> IFeedInfo list" where
  "feedsLoop d [] feeds = feeds"
| "feedsLoop d (e # es) feeds =
     (case getAttribute d e (str ''href'') of
        None \<Rightarrow> feedsLoop d es feeds
      | Some h \<Rightarrow>
          if h = [] then feedsLoop d es feeds
          else
            (let visibleAttr = map_option toLowerCase (getAttribute d e (str ''disabled''));
                 visible = (visibleAttr \<noteq> None \<and> visibleAttr \<noteq> Some (str ''false''));
                 subscribableAttr = map_option toLowerCase (getAttribute d e (str ''type''));
                 subscribable = (subscribableAttr = Some (str ''text/feed''))
             in feedsLoop d es
                  (feeds @ [\<lparr>subscribable = subscribable, visible = visible, href = h\<rparr>])))"

definition getFeedsFromDocument :: "dom \<Rightarrow> nat \<Rightarrow> IFeedInfo list" where
  "getFeedsFromDocument d doc = feedsLoop d (getElements d sel_feed_links doc) []"

section \<open>getSandboxedElement\<close>

text \<open>
  Modelled from the spec: \<open>Syndi.getStandardCss\<close> is not in the sources; the spec has the
  scope start with "a base stylesheet", here a new STYLE element.
\<close>

definition getStandardCss :: "dom \<Rightarrow> nat \<times> dom" where
  "getStandardCss d = createElement (str ''STYLE'') d"

text \<open>\<open>contents: HTMLElement | HTMLElement[]\<close>\<close>

datatype contents = Single nat | Array "nat list"

definition asArray :: "contents \<Rightarrow> nat list" where
  "asArray c = (case c of Array es \<Rightarrow> es | Single e \<Rightarrow> [e])"

text \<open>The first loop: sections go to \<open>body\<close>, links and styles to \<open>head\<close>, the rest nowhere.\<close>

fun sortContents :: "dom \<Rightarrow> nat list \<Rightarrow> nat list \<times> nat list \<Rightarrow> nat list \<times> nat list" where
  "sortContents d [] (head, body) = (head, body)"
| "sortContents d (e # es) (head, body) =
     (if e < length d \<and> nodeName (d ! e) = str ''SECTION''
      then sortContents d es (head, body @ [e])
      else if e < length d \<and> (nodeName (d ! e) = str ''LINK'' \<or> nodeName (d ! e) = str ''STYLE'')
      then sortContents d es (head @ [e], body)
      else sortContents d es (head, body))"

definition attrNames :: "jsstring list" where
  "attrNames = [str ''href'', str ''src'', str ''action'', str ''data-src'']"

text \<open>\<open>LINK[href], A[href], IMG[src], FORM[action], SCRIPT[src]\<close>\<close>

definition sel_references :: selector where
  "sel_references =
     [Compound (str ''LINK'') [HasAttr (str ''href'')],
      Compound (str ''A'') [HasAttr (str ''href'')],
      Compound (str ''IMG'') [HasAttr (str ''src'')],
      Compound (str ''FORM'') [HasAttr (str ''action'')],
      Compound (str ''SCRIPT'') [HasAttr (str ''src'')]]"

text \<open>The body of the inner loop: \<open>attribute.value = Url.resolve(attribute.value, baseUrl)\<close>
  on the attribute node \<open>a\<close> of \<open>e\<close>.\<close>

definition resolveAttribute :: "env \<Rightarrow> jsstring \<Rightarrow> nat \<Rightarrow> dom \<Rightarrow> jsstring \<Rightarrow> dom" where
  "resolveAttribute E baseUrl e d a =
     (case getAttribute d e a of
        None \<Rightarrow> d
      | Some v \<Rightarrow> setAttributeValue d e a (Url_resolve E v baseUrl))"

text \<open>For one element: the attribute nodes that exist are collected, then each gets its
  value resolved.\<close>

definition rewriteElement :: "env \<Rightarrow> jsstring \<Rightarrow> dom \<Rightarrow> nat \<Rightarrow> dom" where
  "rewriteElement E baseUrl d e =
     foldl (resolveAttribute E baseUrl e) d
       (filter (\<lambda>a. getAttribute d e a \<noteq> None) attrNames)"

definition rewriteElements :: "env \<Rightarrow> jsstring \<Rightarrow> nat list \<Rightarrow> dom \<Rightarrow> dom" where
  "rewriteElements E baseUrl es d = foldl (rewriteElement E baseUrl) d es"

text \<open>The first half of \<open>getSandboxedElement\<close>, up to \<open>shadow.append(...head, ...body)\<close>:
  the container, its shadow root and the store.\<close>

definition assemble :: "contents \<Rightarrow> dom \<Rightarrow> nat \<times> nat \<times> dom" where
  "assemble cs d0 =
     (let (container, d1) = createElement (str ''DIV'') d0;
          (css, d2) = getStandardCss d1;
          (shadow, d3) = attachShadow container d2;
          (head, body) = sortContents d3 (asArray cs) ([css], [])
      in (container, shadow, append_nodes shadow (head @ body) d3))"

definition getSandboxedElement :: "env \<Rightarrow> contents \<Rightarrow> jsstring \<Rightarrow> dom \<Rightarrow> nat \<times> dom" where
  "getSandboxedElement E cs baseUrl d0 =
     (let (container, shadow, d4) = assemble cs d0;
          baseUrl' = Url_folderOf E baseUrl
      in (container, rewriteElements E baseUrl' (getElements d4 sel_references shadow) d4))"

section \<open>getFeedMetaData\<close>

record FeedMetaData =
  description :: jsstring
  icon :: jsstring

text \<open>The four variables that the function given to \<open>trapElement\<close> assigns.\<close>

record trap_state =
  standardDescription :: jsstring
  feedDescription :: jsstring
  standardIcon :: jsstring
  feedIcon :: jsstring

definition trapCallback :: "trap_state \<Rightarrow> element \<Rightarrow> trap_state" where
  "trapCallback st element =
     (if el_nodeName element = str ''meta''
      then (let name = el_attrs element (str ''name'')
            in if name = Some (str ''feed-description'')
               then st\<lparr>feedDescription := orEmpty (el_attrs element (str ''content''))\<rparr>
               else if name = Some (str ''description'')
               then st\<lparr>standardDescription := orEmpty (el_attrs element (str ''content''))\<rparr>
               else st)
      else if el_nodeName element = str ''link''
      then (let rel = el_attrs element (str ''rel'')
            in if rel = Some (str ''feed-icon'')
               then st\<lparr>feedIcon := orEmpty (el_attrs element (str ''href''))\<rparr>
               else if rel = Some (str ''icon'')
               then st\<lparr>standardIcon := orEmpty (el_attrs element (str ''href''))\<rparr>
               else st)
      else st)"

text \<open>\<open>a || b\<close> for two strings.\<close>

definition orElse :: "jsstring \<Rightarrow> jsstring \<Rightarrow> jsstring" where
  "orElse a b = (if a \<noteq> [] then a else b)"

definition readMetaData :: "element list \<Rightarrow> FeedMetaData" where
  "readMetaData els =
     (let st = foldl trapCallback
                 \<lparr>standardDescription = [], feedDescription = [], standardIcon = [],
                  feedIcon = []\<rparr> els
      in \<lparr>description = orElse (feedDescription st) (standardDescription st),
          icon = orElse (feedIcon st) (standardIcon st)\<rparr>)"

text \<open>The first half of the loop body: what the directory \<open>currentUrl\<close> yields, \<open>None\<close> when
  its document cannot be fetched or has neither a description nor an icon.\<close>

definition scanLevel :: "env \<Rightarrow> jsstring \<Rightarrow> FeedMetaData option" where
  "scanLevel E currentUrl =
     (case getHttpContent E currentUrl 0 of
        None \<Rightarrow> None
      | Some httpContent \<Rightarrow>
          (let md = readMetaData (reader_elements E (bodyText httpContent))
           in if description md \<noteq> [] \<or> icon md \<noteq> [] then Some md else None))"

datatype error = TypeError | Error string

text \<open>
  The loop \<open>for (let safety = 1000; safety-- > 0;)\<close>, by recursion on \<open>safety\<close>. The result
  comes with the URLs handed to \<open>getHttpContent\<close>, in order; \<open>Inr None\<close> is \<open>null\<close> and
  \<open>Inl TypeError\<close> is the exception of \<open>new URL("..", currentUrl)\<close> on an invalid base.
\<close>

fun upscan ::
  "env \<Rightarrow> nat \<Rightarrow> jsstring \<Rightarrow> (error + FeedMetaData option) \<times> jsstring list" where
  "upscan E 0 currentUrl = (Inr None, [])"
| "upscan E (Suc safety) currentUrl =
     (case scanLevel E currentUrl of
        Some md \<Rightarrow> (Inr (Some md), [currentUrl])
      | None \<Rightarrow>
          (case new_URL E (str ''..'') currentUrl of
             None \<Rightarrow> (Inl TypeError, [currentUrl])
           | Some url \<Rightarrow>
               if currentUrl = url then (Inr None, [currentUrl])
               else (let (r, fetched) = upscan E safety url in (r, currentUrl # fetched))))"

definition getFeedMetaData ::
  "env \<Rightarrow> jsstring \<Rightarrow> (error + FeedMetaData option) \<times> jsstring list" where
  "getFeedMetaData E feedUrl = upscan E 1000 (Url_folderOf E feedUrl)"

section \<open>getOmniviewFromFeed\<close>

text \<open>
  Objects live in a store of their own and are referred to by address. The two functions of
  \<open>defaultOptions\<close> are closures over the argument \<open>urls\<close>, here \<open>feedUrls\<close>; \<open>Supplied n\<close> is a
  function of the caller.
\<close>

datatype jsfunction =
  BuiltinGetPoster "jsstring list" | BuiltinFillBody "jsstring list" | Supplied nat

datatype jsvalue = Function jsfunction | Number int

type_synonym jsobject = "jsstring \<rightharpoonup> jsvalue"

type_synonym objects = "jsobject list"

text \<open>\<open>Object.assign(target, source)\<close> writes the properties of \<open>source\<close> into \<open>target\<close> and
  returns \<open>target\<close>.\<close>

definition Object_assign :: "nat \<Rightarrow> nat \<Rightarrow> objects \<Rightarrow> nat \<times> objects" where
  "Object_assign target source objs =
     (target, objs[target := (objs ! target) ++ (objs ! source)])"

text \<open>An instance of \<open>Omniview.Class\<close>, as far as the sources show it: made from an options
  object.\<close>

record Omniview =
  options :: nat

definition getOmniviewFromFeed ::
  "env \<Rightarrow> jsstring list \<Rightarrow> nat \<Rightarrow> objects \<Rightarrow> (error + Omniview) \<times> objects" where
  "getOmniviewFromFeed E feedUrls omniviewOptions objs =
     (if \<not> Omniview_defined E then (Inl (Error ''Omniview library not found.''), objs)
      else
        (let defaultOptions = length objs;
             objs1 = objs @ [[str ''getPoster'' \<mapsto> Function (BuiltinGetPoster feedUrls),
                              str ''fillBody'' \<mapsto> Function (BuiltinFillBody feedUrls)]];
             (mergedOptions, objs2) = Object_assign omniviewOptions defaultOptions objs1;
             omniview = \<lparr>options = mergedOptions\<rparr>
         in (Inr omniview, objs2)))"

section \<open>Notions used in the statements\<close>

text \<open>The store in which the first loop of \<open>getSandboxedElement\<close> runs: the container, the
  stylesheet and the shadow root are its three new nodes.\<close>

definition afterAttach :: "dom \<Rightarrow> dom" where
  "afterAttach d0 =
     snd (attachShadow (length d0) (snd (getStandardCss (snd (createElement (str ''DIV'') d0)))))"

text \<open>The nodes handed to \<open>shadow.append\<close>: the stylesheet, the links and styles, the sections.\<close>

definition moved :: "dom \<Rightarrow> contents \<Rightarrow> nat list" where
  "moved d0 cs =
     (length d0 + 1) #
     filter (\<lambda>e. e < length (afterAttach d0) \<and>
                  (nodeName (afterAttach d0 ! e) = str ''LINK'' \<or>
                   nodeName (afterAttach d0 ! e) = str ''STYLE'')) (asArray cs) @
     filter (\<lambda>e. e < length (afterAttach d0) \<and> nodeName (afterAttach d0 ! e) = str ''SECTION'')
       (asArray cs)"

text \<open>The feed-specific markers of the metadata scan.\<close>

definition isFeedDescription :: "element \<Rightarrow> bool" where
  "isFeedDescription x \<longleftrightarrow>
     el_nodeName x = str ''meta'' \<and> el_attrs x (str ''name'') = Some (str ''feed-description'')"

definition isFeedIcon :: "element \<Rightarrow> bool" where
  "isFeedIcon x \<longleftrightarrow>
     el_nodeName x = str ''link'' \<and> el_attrs x (str ''rel'') = Some (str ''feed-icon'')"

text \<open>The generic markers of the metadata scan.\<close>

definition isDescription :: "element \<Rightarrow> bool" where
  "isDescription x \<longleftrightarrow>
     el_nodeName x = str ''meta'' \<and> el_attrs x (str ''name'') = Some (str ''description'')"

definition isIcon :: "element \<Rightarrow> bool" where
  "isIcon x \<longleftrightarrow>
     el_nodeName x = str ''link'' \<and> el_attrs x (str ''rel'') = Some (str ''icon'')"

text \<open>The value that the last marker of a kind carries in a document: empty when the
  document has no such marker, or when the last one has no value.\<close>

definition lastValue :: "(element \<Rightarrow> bool) \<Rightarrow> jsstring \<Rightarrow> element list \<Rightarrow> jsstring" where
  "lastValue P a els =
     (if filter P els = [] then [] else orEmpty (el_attrs (last (filter P els)) a))"

text \<open>
  A climb: a list of directories, each but the last yielding nothing and having the next
  one, another directory, as its parent. The scan walks along a climb.
\<close>

fun climbs :: "env \<Rightarrow> jsstring list \<Rightarrow> bool" where
  "climbs E [] = False"
| "climbs E [u] = True"
| "climbs E (u # v # us) =
     (scanLevel E u = None \<and> new_URL E (str ''..'') u = Some v \<and> v \<noteq> u \<and> climbs E (v # us))"

text \<open>
  The reading of the disabled flag as the specification words it, for comparison with the
  code: visible when the attribute is absent or "false" in any case, not visible for any
  other value.
\<close>

definition specVisible :: "jsstring option \<Rightarrow> bool" where
  "specVisible disabledAttr =
     (case disabledAttr of None \<Rightarrow> True | Some v \<Rightarrow> toLowerCase v = str ''false'')"

section \<open>Sample collaborators and documents for the concrete runs\<close>

text \<open>
  A small \<open>Url\<close> module: the folder of a URL is the URL up to its last slash, and a
  reference that does not start with a scheme is put behind the base.
\<close>

definition sample_folderOf :: "jsstring \<Rightarrow> jsstring" where
  "sample_folderOf u = rev (dropWhile (\<lambda>c. c \<noteq> 0x2F) (rev u))"

definition sample_resolve :: "jsstring \<Rightarrow> jsstring \<Rightarrow> jsstring" where
  "sample_resolve rel base = (if js_startsWith rel (str ''https://'') then rel else base @ rel)"

definition sampleEnv ::
  "(http_request \<Rightarrow> http_response option) \<Rightarrow> (jsstring \<Rightarrow> jsstring \<Rightarrow> jsstring option) \<Rightarrow>
   (jsstring \<Rightarrow> element list) \<Rightarrow> env" where
  "sampleEnv fetch url reader =
     \<lparr>Url_resolve = sample_resolve, Url_folderOf = sample_folderOf,
      Url_getCurrent = str ''https://x/'', window_fetch = fetch, new_URL = url,
      reader_elements = reader, Omniview_defined = True\<rparr>"

text \<open>A server with one resource: \<open>body\<close> at \<open>url\<close>, sent with the media type \<open>ctype\<close>.\<close>

definition serveOne ::
  "jsstring \<Rightarrow> jsstring \<Rightarrow> jsstring \<Rightarrow> http_request \<Rightarrow> http_response option" where
  "serveOne url ctype body req =
     (if req_url req = url
      then Some \<lparr>resp_ok = True, resp_headers = [str ''content-type'' \<mapsto> ctype],
                 resp_body = Some body\<rparr>
      else None)"

definition feedEnv :: "jsstring \<Rightarrow> jsstring \<Rightarrow> env" where
  "feedEnv ctype body =
     sampleEnv (serveOne (str ''https://x/feed.txt'') ctype body) (\<lambda>_ _. None) (\<lambda>_. [])"

text \<open>A server that answers every request with a status that is not ok.\<close>

definition refusingEnv :: env where
  "refusingEnv =
     sampleEnv (\<lambda>_. Some \<lparr>resp_ok = False, resp_headers = Map.empty, resp_body = Some []\<rparr>)
       (\<lambda>_ _. None) (\<lambda>_. [])"

text \<open>No network at all.\<close>

definition offlineEnv :: env where
  "offlineEnv = sampleEnv (\<lambda>_. None) (\<lambda>_ _. None) (\<lambda>_. [])"

definition mkNode :: "string \<Rightarrow> (string \<times> string) list \<Rightarrow> nat list \<Rightarrow> nat option \<Rightarrow> node" where
  "mkNode name as cs p =
     \<lparr>nodeName = str name, attrs = map_of (map (\<lambda>(k, v). (str k, str v)) as), children = cs,
      parent = p, shadowRoot = None\<rparr>"

text \<open>A document with four feed links, whose \<open>disabled\<close> attribute is absent, "true", empty
  and "FALSE", and a stylesheet link.\<close>

definition sampleDoc :: dom where
  "sampleDoc =
     [mkNode ''#document'' [] [1] None,
      mkNode ''HEAD'' [] [2, 3, 4, 5, 6] (Some 0),
      mkNode ''LINK'' [(''rel'', ''feed''), (''href'', ''f.txt'')] [] (Some 1),
      mkNode ''LINK'' [(''rel'', ''feed''), (''href'', ''g.txt''), (''disabled'', ''true'')] []
        (Some 1),
      mkNode ''LINK'' [(''rel'', ''feed''), (''href'', ''h.txt''), (''disabled'', '''')] []
        (Some 1),
      mkNode ''LINK'' [(''rel'', ''feed''), (''href'', ''i.txt''), (''disabled'', ''FALSE'')] []
        (Some 1),
      mkNode ''LINK'' [(''rel'', ''stylesheet''), (''href'', ''s.css'')] [] (Some 1)]"

text \<open>A body with one section, which holds an anchor and a video.\<close>

definition sampleReel :: dom where
  "sampleReel =
     [mkNode ''BODY'' [] [1] None,
      mkNode ''SECTION'' [] [2, 3] (Some 0),
      mkNode ''A'' [(''href'', ''p.html'')] [] (Some 1),
      mkNode ''VIDEO'' [(''src'', ''v.mp4'')] [] (Some 1)]"

definition sandboxedSample :: "nat \<times> dom" where
  "sandboxedSample =
     getSandboxedElement offlineEnv (Single 1) (str ''https://x/r/index.html'') sampleReel"

text \<open>A site with three directories: \<open>https://x/a/b/\<close> has no document, \<open>https://x/a/\<close> has
  a document without metadata, and \<open>https://x/\<close>, which is its own parent, has a document with
  a feed description, a description, a feed icon and an icon.\<close>

definition mkElement :: "string \<Rightarrow> (string \<times> string) list \<Rightarrow> element" where
  "mkElement name as =
     \<lparr>el_nodeName = str name, el_attrs = map_of (map (\<lambda>(k, v). (str k, str v)) as)\<rparr>"

definition siteFetch :: "http_request \<Rightarrow> http_response option" where
  "siteFetch req =
     (if req_url req = str ''https://x/a/''
      then Some \<lparr>resp_ok = True, resp_headers = Map.empty, resp_body = Some (str ''A'')\<rparr>
      else if req_url req = str ''https://x/''
      then Some \<lparr>resp_ok = True, resp_headers = Map.empty, resp_body = Some (str ''ROOT'')\<rparr>
      else None)"

definition rootElements :: "element list" where
  "rootElements =
     [mkElement ''meta'' [(''name'', ''feed-description''), (''content'', ''feedy'')],
      mkElement ''meta'' [(''name'', ''description''), (''content'', ''generic'')],
      mkElement ''link'' [(''rel'', ''feed-icon''), (''href'', ''f.png'')],
      mkElement ''link'' [(''rel'', ''icon''), (''href'', ''i.png'')]]"

definition siteReader :: "jsstring \<Rightarrow> element list" where
  "siteReader html = (if html = str ''ROOT'' then rootElements else [mkElement ''title'' []])"

definition siteParent :: "jsstring \<Rightarrow> jsstring \<Rightarrow> jsstring option" where
  "siteParent rel base =
     (if base = str ''https://x/a/b/'' then Some (str ''https://x/a/'')
      else if base = str ''https://x/a/'' \<or> base = str ''https://x/''
      then Some (str ''https://x/'') else None)"

definition siteEnv :: env where
  "siteEnv = sampleEnv siteFetch siteParent siteReader"

text \<open>The same directories with no documents in them.\<close>

definition bareEnv :: env where
  "bareEnv = sampleEnv (\<lambda>_. None) siteParent (\<lambda>_. [])"

text \<open>Directories without metadata whose parent is always another directory.\<close>

definition endlessEnv :: env where
  "endlessEnv = sampleEnv (\<lambda>_. None) (\<lambda>rel base. Some (0x2F # base)) (\<lambda>_. [])"

text \<open>The three directories, from the deepest up.\<close>

definition threeLevels :: "jsstring list" where
  "threeLevels = [str ''https://x/a/b/'', str ''https://x/a/'', str ''https://x/'']"

text \<open>A document with generic markers and a feed description without a value.\<close>

definition genericElements :: "element list" where
  "genericElements =
     [mkElement ''meta'' [(''name'', ''description''), (''content'', ''generic'')],
      mkElement ''meta'' [(''name'', ''feed-description''), (''content'', '''')],
      mkElement ''link'' [(''rel'', ''icon''), (''href'', ''i.png'')]]"

text \<open>A page with a stylesheet link in its head and a section, which holds an anchor, in
  its body; the link and the section are handed to \<open>getSandboxedElement\<close>.\<close>

definition samplePage :: dom where
  "samplePage =
     [mkNode ''HEAD'' [] [1] None,
      mkNode ''LINK'' [(''rel'', ''stylesheet''), (''href'', ''s.css'')] [] (Some 0),
      mkNode ''BODY'' [] [3] None,
      mkNode ''SECTION'' [] [4] (Some 2),
      mkNode ''A'' [(''href'', ''p.html'')] [] (Some 3)]"

definition sandboxedPage :: "nat \<times> dom" where
  "sandboxedPage =
     getSandboxedElement offlineEnv (Array [1, 3]) (str ''https://x/r/index.html'') samplePage"

text \<open>An options object of a caller, with a \<open>getPoster\<close> of its own.\<close>

definition callerObjects :: objects where
  "callerObjects =
     [[str ''getPoster'' \<mapsto> Function (Supplied 1), str ''anchorIndex'' \<mapsto> Number 3]]"

section \<open>Properties of the string functions\<close>

lemma js_split_nonempty: "js_split c s \<noteq> []"
  by (induction s) (auto split: list.splits)

lemma js_join_Cons: "ls \<noteq> [] \<Longrightarrow> js_join c (l # ls) = l @ c # js_join c ls"
  by (cases ls) simp_all

text \<open>Splitting loses nothing: joining the pieces gives the string back.\<close>

lemma js_join_split: "js_join c (js_split c s) = s"
proof (induction s)
  case Nil
  show ?case by simp
next
  case (Cons x xs)
  obtain y ys where yys: "js_split c xs = y # ys"
    using js_split_nonempty [of c xs] by (cases "js_split c xs") auto
  show ?case
  proof (cases "x = c")
    case True
    then show ?thesis using Cons.IH js_split_nonempty [of c xs]
      by (simp add: js_join_Cons)
  next
    case False
    have "js_join c ((x # y) # ys) = x # js_join c (y # ys)"
      by (cases ys) simp_all
    with False yys Cons.IH show ?thesis by simp
  qed
qed

lemma js_split_no_separator: "l \<in> set (js_split c s) \<Longrightarrow> c \<notin> set l"
proof (induction s arbitrary: l)
  case Nil
  then show ?case by simp
next
  case (Cons x xs)
  obtain y ys where yys: "js_split c xs = y # ys"
    using js_split_nonempty [of c xs] by (cases "js_split c xs") auto
  show ?case
  proof (cases "x = c")
    case True
    with Cons show ?thesis by auto
  next
    case False
    with Cons.prems yys have "l = x # y \<or> l \<in> set ys" by simp
    moreover have "c \<notin> set y" using Cons.IH yys by simp
    moreover have "\<And>m. m \<in> set ys \<Longrightarrow> c \<notin> set m" using Cons.IH yys by simp
    ultimately show ?thesis using False by auto
  qed
qed

text \<open>On ASCII text the number of code units is the number of bytes.\<close>

lemma utf8ByteLength_ascii: "\<forall>u \<in> set s. u < 0x80 \<Longrightarrow> utf8ByteLength s = length s"
proof (induction s rule: utf8ByteLength.induct)
  case 1
  show ?case by simp
next
  case (2 u)
  then show ?case by (simp add: unitBytes_def)
next
  case (3 u v us)
  then have "\<not> isHighSurrogate u"
    by (auto simp: isHighSurrogate_def word_le_def word_less_def)
  with 3 show ?case by (simp add: unitBytes_def)
qed

lemma js_startsWith_hash: "js_startsWith s (str ''#'') \<longleftrightarrow> elem0 s = Some 0x23"
  by (cases s) (auto simp: js_startsWith_def str_def elem0_def)

lemma toLowerCase_Content_Type [simp]:
  "toLowerCase (str ''Content-Type'') = str ''content-type''"
  by (simp add: toLowerCase_def str_def)

section \<open>Properties of getFeedFromUrl\<close>

lemma getHttpContent_feedEnv:
  "getHttpContent (feedEnv ctype body) (str ''https://x/feed.txt'') 0 =
     Some \<lparr>headers = [str ''content-type'' \<mapsto> ctype], bodyText = body\<rparr>"
  by (simp add: getHttpContent_def httpRequest_def feedEnv_def sampleEnv_def serveOne_def
      sample_resolve_def js_startsWith_def str_def)

lemma mediaType_content_type:
  "mediaType \<lparr>headers = [str ''content-type'' \<mapsto> ctype], bodyText = body\<rparr> =
     elem0 (js_split 0x3B ctype)"
  by (simp add: mediaType_def headers_get_def orEmpty_def)

lemma mediaType_with_charset:
  "elem0 (js_split 0x3B (str ''text/plain; charset=utf-8'')) = Some (str ''text/plain'')"
  by (simp add: elem0_def str_def)

lemma mediaType_bare:
  "elem0 (js_split 0x3B (str ''text/plain'')) = Some (str ''text/plain'')"
  by (simp add: elem0_def str_def)

lemma mediaType_html:
  "elem0 (js_split 0x3B (str ''text/html'')) \<noteq> Some (str ''text/plain'')"
  by (simp add: elem0_def str_def)

lemma getFeedFromUrl_feedEnv:
  "getFeedFromUrl (feedEnv (str ''text/plain'') body) (str ''https://x/feed.txt'') 0 =
     \<lparr>urls = feedLines (feedEnv (str ''text/plain'') body) (str ''https://x/feed.txt'') body,
      bytesRead = int (length body)\<rparr>"
  by (simp add: getFeedFromUrl_def getHttpContent_feedEnv mediaType_content_type mediaType_bare)

text \<open>
  C4, at a feed body that is not ASCII. The body "#", U+00E9 (e with an acute accent), line
  feed is the three code units 23, E9, 0A and the four bytes 23, C3, A9, 0A: \<open>bytesRead\<close>
  is \<open>text.length\<close>, the number of code units, 3, and not the number of bytes received, 4.
\<close>

theorem getFeedFromUrl_bytesRead_counts_code_units:
  "bytesRead (getFeedFromUrl (feedEnv (str ''text/plain'') [0x23, 0xE9, 0x0A])
      (str ''https://x/feed.txt'') 0) = 3
   \<and> utf8ByteLength [0x23, 0xE9, 0x0A] = 4"
  by (simp add: getFeedFromUrl_feedEnv unitBytes_def isHighSurrogate_def)

text \<open>On an ASCII body the two counts agree, and the body of the first scenario gives 24.\<close>

lemma getFeedFromUrl_bytesRead_ascii:
  assumes "getHttpContent E feedUrl startingByte = Some fetchResult"
      and "mediaType fetchResult = Some (str ''text/plain'')"
      and "\<forall>u \<in> set (bodyText fetchResult). u < 0x80"
  shows "bytesRead (getFeedFromUrl E feedUrl startingByte) =
           int (utf8ByteLength (bodyText fetchResult))"
  using assms by (simp add: getFeedFromUrl_def utf8ByteLength_ascii)

lemma getFeedFromUrl_bytesRead_scenario:
  "bytesRead (getFeedFromUrl
      (feedEnv (str ''text/plain'') (str ''#comment\<newline>\<newline>a.html\<newline>b.html\<newline>''))
      (str ''https://x/feed.txt'') 0) = 24"
  by (simp add: getFeedFromUrl_feedEnv) (simp add: str_def)

text \<open>
  C6. When the feed is fetched from its start and comes as text/plain, the items are the
  lines of the body (its pieces between line feeds, which joined give the body back) that
  after trimming are not empty and do not start with "#", trimmed and resolved against the
  folder of the feed's URL, in the order of the lines.
\<close>

theorem getFeedFromUrl_items:
  assumes "getHttpContent E feedUrl 0 = Some fetchResult"
      and "mediaType fetchResult = Some (str ''text/plain'')"
  shows "urls (getFeedFromUrl E feedUrl 0) =
           map (\<lambda>l. Url_resolve E (js_trim l) (Url_folderOf E feedUrl))
             (filter (\<lambda>l. js_trim l \<noteq> [] \<and> elem0 (js_trim l) \<noteq> Some 0x23)
               (js_split 0x0A (bodyText fetchResult)))
         \<and> js_join 0x0A (js_split 0x0A (bodyText fetchResult)) = bodyText fetchResult
         \<and> (\<forall>l \<in> set (js_split 0x0A (bodyText fetchResult)). 0x0A \<notin> set l)"
proof -
  have "urls (getFeedFromUrl E feedUrl 0) = feedLines E feedUrl (bodyText fetchResult)"
    using assms by (simp add: getFeedFromUrl_def)
  also have "\<dots> = map (\<lambda>l. Url_resolve E (js_trim l) (Url_folderOf E feedUrl))
             (filter (\<lambda>l. js_trim l \<noteq> [] \<and> elem0 (js_trim l) \<noteq> Some 0x23)
               (js_split 0x0A (bodyText fetchResult)))"
    by (simp add: feedLines_def filter_map comp_def js_startsWith_hash conj_commute)
  finally show ?thesis
    using js_join_split js_split_no_separator by blast
qed

lemma split_scenario_feed:
  "js_split 0x0A (str ''#comment\<newline>\<newline> a.html\<newline>b.html\<newline>'') =
     [str ''#comment'', [], str '' a.html'', str ''b.html'', []]"
  by (simp add: str_def)

lemma trim_scenario_lines:
  "js_trim (str ''#comment'') = str ''#comment''" "js_trim [] = []"
  "js_trim (str '' a.html'') = str ''a.html''" "js_trim (str ''b.html'') = str ''b.html''"
  by (simp_all add: js_trim_def str_def isWhiteSpace_def)

text \<open>The feed of the first scenario, with a blank before "a.html" and a charset parameter
  on the media type: the two items, resolved against \<open>https://x/\<close>.\<close>

theorem getFeedFromUrl_items_witness:
  "getHttpContent
     (feedEnv (str ''text/plain; charset=utf-8'')
        (str ''#comment\<newline>\<newline> a.html\<newline>b.html\<newline>''))
     (str ''https://x/feed.txt'') 0
     = Some \<lparr>headers = [str ''content-type'' \<mapsto> str ''text/plain; charset=utf-8''],
              bodyText = str ''#comment\<newline>\<newline> a.html\<newline>b.html\<newline>''\<rparr>
   \<and> mediaType \<lparr>headers = [str ''content-type'' \<mapsto> str ''text/plain; charset=utf-8''],
                 bodyText = str ''#comment\<newline>\<newline> a.html\<newline>b.html\<newline>''\<rparr>
       = Some (str ''text/plain'')
   \<and> urls (getFeedFromUrl
        (feedEnv (str ''text/plain; charset=utf-8'')
           (str ''#comment\<newline>\<newline> a.html\<newline>b.html\<newline>''))
        (str ''https://x/feed.txt'') 0)
     = [str ''https://x/a.html'', str ''https://x/b.html'']"
proof -
  let ?E = "feedEnv (str ''text/plain; charset=utf-8'')
              (str ''#comment\<newline>\<newline> a.html\<newline>b.html\<newline>'')"
  let ?r = "\<lparr>headers = [str ''content-type'' \<mapsto> str ''text/plain; charset=utf-8''],
             bodyText = str ''#comment\<newline>\<newline> a.html\<newline>b.html\<newline>''\<rparr>"
  have h1: "getHttpContent ?E (str ''https://x/feed.txt'') 0 = Some ?r"
    by (rule getHttpContent_feedEnv)
  have h2: "mediaType ?r = Some (str ''text/plain'')"
    by (simp only: mediaType_content_type mediaType_with_charset)
  have f: "Url_folderOf ?E (str ''https://x/feed.txt'') = str ''https://x/''"
    by (simp add: feedEnv_def sampleEnv_def sample_folderOf_def str_def)
  have r: "Url_resolve ?E (str ''a.html'') (str ''https://x/'') = str ''https://x/a.html''"
          "Url_resolve ?E (str ''b.html'') (str ''https://x/'') = str ''https://x/b.html''"
    by (simp_all add: feedEnv_def sampleEnv_def sample_resolve_def js_startsWith_def str_def)
  have e: "elem0 (str ''#comment'') = Some 0x23" "elem0 (str ''a.html'') \<noteq> Some 0x23"
     "elem0 (str ''b.html'') \<noteq> Some 0x23" "str ''a.html'' \<noteq> []" "str ''b.html'' \<noteq> []"
    by (simp_all add: elem0_def str_def)
  have "urls (getFeedFromUrl ?E (str ''https://x/feed.txt'') 0)
     = [str ''https://x/a.html'', str ''https://x/b.html'']"
    using getFeedFromUrl_items [OF h1 h2]
    by (simp add: split_scenario_feed trim_scenario_lines f r e)
  with h1 h2 show ?thesis by blast
qed

text \<open>
  C7. When the fetch fails (the promise rejects, the status is not ok, or the body cannot be
  read) and when the media type is not text/plain, the function returns the same value: no
  items and \<open>bytesRead = -1\<close>.
\<close>

theorem getFeedFromUrl_unusable:
  "(window_fetch E (httpRequest E feedUrl startingByte) = None
      \<longrightarrow> getFeedFromUrl E feedUrl startingByte = \<lparr>urls = [], bytesRead = - 1\<rparr>)
   \<and> (\<forall>resp. window_fetch E (httpRequest E feedUrl startingByte) = Some resp
         \<and> (\<not> resp_ok resp \<or> resp_body resp = None)
      \<longrightarrow> getFeedFromUrl E feedUrl startingByte = \<lparr>urls = [], bytesRead = - 1\<rparr>)
   \<and> (\<forall>fetchResult. getHttpContent E feedUrl startingByte = Some fetchResult
         \<and> mediaType fetchResult \<noteq> Some (str ''text/plain'')
      \<longrightarrow> getFeedFromUrl E feedUrl startingByte = \<lparr>urls = [], bytesRead = - 1\<rparr>)"
  by (auto simp: getFeedFromUrl_def getHttpContent_def)

text \<open>Three runs: no network, a server that refuses, and a feed sent as text/html.\<close>

theorem getFeedFromUrl_unusable_witness:
  "window_fetch offlineEnv (httpRequest offlineEnv (str ''https://x/feed.txt'') 0) = None
   \<and> getFeedFromUrl offlineEnv (str ''https://x/feed.txt'') 0 = \<lparr>urls = [], bytesRead = - 1\<rparr>
   \<and> window_fetch refusingEnv (httpRequest refusingEnv (str ''https://x/feed.txt'') 0)
       = Some \<lparr>resp_ok = False, resp_headers = Map.empty, resp_body = Some []\<rparr>
   \<and> getFeedFromUrl refusingEnv (str ''https://x/feed.txt'') 0 = \<lparr>urls = [], bytesRead = - 1\<rparr>
   \<and> getHttpContent (feedEnv (str ''text/html'') (str ''a.html'')) (str ''https://x/feed.txt'') 0
       = Some \<lparr>headers = [str ''content-type'' \<mapsto> str ''text/html''],
                bodyText = str ''a.html''\<rparr>
   \<and> getFeedFromUrl (feedEnv (str ''text/html'') (str ''a.html'')) (str ''https://x/feed.txt'') 0
       = \<lparr>urls = [], bytesRead = - 1\<rparr>"
proof -
  have a: "window_fetch offlineEnv (httpRequest offlineEnv (str ''https://x/feed.txt'') 0) = None"
    by (simp add: offlineEnv_def sampleEnv_def)
  have b: "window_fetch refusingEnv (httpRequest refusingEnv (str ''https://x/feed.txt'') 0)
       = Some \<lparr>resp_ok = False, resp_headers = Map.empty, resp_body = Some []\<rparr>"
    by (simp add: refusingEnv_def sampleEnv_def)
  have c: "getHttpContent (feedEnv (str ''text/html'') (str ''a.html''))
             (str ''https://x/feed.txt'') 0
       = Some \<lparr>headers = [str ''content-type'' \<mapsto> str ''text/html''],
                bodyText = str ''a.html''\<rparr>"
    by (rule getHttpContent_feedEnv)
  have d: "mediaType \<lparr>headers = [str ''content-type'' \<mapsto> str ''text/html''],
                      bodyText = str ''a.html''\<rparr> \<noteq> Some (str ''text/plain'')"
    by (simp only: mediaType_content_type mediaType_html not_False_eq_True)
  from getFeedFromUrl_unusable [of offlineEnv "str ''https://x/feed.txt''" 0] a
  have 1: "getFeedFromUrl offlineEnv (str ''https://x/feed.txt'') 0
             = \<lparr>urls = [], bytesRead = - 1\<rparr>" by blast
  from getFeedFromUrl_unusable [of refusingEnv "str ''https://x/feed.txt''" 0] b
  have 2: "getFeedFromUrl refusingEnv (str ''https://x/feed.txt'') 0
             = \<lparr>urls = [], bytesRead = - 1\<rparr>" by simp
  from getFeedFromUrl_unusable
         [of "feedEnv (str ''text/html'') (str ''a.html'')" "str ''https://x/feed.txt''" 0] c d
  have 3: "getFeedFromUrl (feedEnv (str ''text/html'') (str ''a.html''))
             (str ''https://x/feed.txt'') 0 = \<lparr>urls = [], bytesRead = - 1\<rparr>" by blast
  from a b c 1 2 3 show ?thesis by blast
qed

section \<open>Properties of getFeedsFromDocument\<close>

lemma feedsLoop_visible:
  "map visible (feedsLoop d es feeds) =
     map visible feeds @
     map (\<lambda>e. case getAttribute d e (str ''disabled'') of
                 None \<Rightarrow> False
               | Some v \<Rightarrow> toLowerCase v \<noteq> str ''false'')
       (filter (\<lambda>e. getAttribute d e (str ''href'') \<notin> {None, Some []}) es)"
  by (induction es arbitrary: feeds) (auto simp: Let_def split: option.splits)

lemma feedsLoop_href:
  "map href (feedsLoop d es feeds) =
     map href feeds @
     filter (\<lambda>h. h \<noteq> []) (List.map_filter (\<lambda>e. getAttribute d e (str ''href'')) es)"
  by (induction es arbitrary: feeds) (auto simp: Let_def List.map_filter_simps split: option.splits)

text \<open>
  What the loop computes. The feed links with a non-empty href give one declaration each, in
  document order, and \<open>visible\<close> is true exactly when the \<open>disabled\<close> attribute is present
  with a value that, in lower case, is not "false".
\<close>

lemma getFeedsFromDocument_visible:
  "map visible (getFeedsFromDocument d doc) =
     map (\<lambda>e. case getAttribute d e (str ''disabled'') of
                 None \<Rightarrow> False
               | Some v \<Rightarrow> toLowerCase v \<noteq> str ''false'')
       (filter (\<lambda>e. getAttribute d e (str ''href'') \<notin> {None, Some []})
         (getElements d sel_feed_links doc))"
  by (simp add: getFeedsFromDocument_def feedsLoop_visible)

text \<open>The four feed links of the sample document: absent, "true", empty, "FALSE".\<close>

lemma getFeedsFromDocument_visible_sample:
  "map visible (getFeedsFromDocument sampleDoc 0) = [False, True, True, False]"
proof -
  have "map (\<lambda>e. case getAttribute sampleDoc e (str ''disabled'') of
                 None \<Rightarrow> False
               | Some v \<Rightarrow> toLowerCase v \<noteq> str ''false'')
       (filter (\<lambda>e. getAttribute sampleDoc e (str ''href'') \<notin> {None, Some []})
         (getElements sampleDoc sel_feed_links 0)) = [False, True, True, False]"
    by code_simp
  with getFeedsFromDocument_visible [of sampleDoc 0] show ?thesis by simp
qed

text \<open>
  C1, at the sample document. Its first feed link has no \<open>disabled\<close> attribute, which the
  claim reads as visible, and the declaration made from it is not visible; its second has
  \<open>disabled="true"\<close>, which the claim reads as not visible, and the declaration made from it
  is visible. The test "the attribute is set" goes into \<open>visible\<close> without a negation.
\<close>

theorem getFeedsFromDocument_visible_reversed:
  "getElements sampleDoc sel_feed_links 0 = [2, 3, 4, 5]
   \<and> getAttribute sampleDoc 2 (str ''disabled'') = None
   \<and> specVisible None
   \<and> \<not> visible (getFeedsFromDocument sampleDoc 0 ! 0)
   \<and> getAttribute sampleDoc 3 (str ''disabled'') = Some (str ''true'')
   \<and> \<not> specVisible (Some (str ''true''))
   \<and> visible (getFeedsFromDocument sampleDoc 0 ! 1)"
  by code_simp

text \<open>
  The href of a declaration is the value of the link's \<open>href\<close> attribute as it stands in the
  document that \<open>getFeedsFromDocument\<close> is given: the function resolves nothing. What the
  document of a Reel holds there is up to the sanitizer that made it.
\<close>

lemma getFeedsFromDocument_href_verbatim:
  "map href (getFeedsFromDocument d doc) =
     filter (\<lambda>h. h \<noteq> [])
       (List.map_filter (\<lambda>e. getAttribute d e (str ''href''))
         (getElements d sel_feed_links doc))"
  by (simp add: getFeedsFromDocument_def feedsLoop_href)

lemma getFeedsFromDocument_href_sample:
  "map href (getFeedsFromDocument sampleDoc 0) =
     [str ''f.txt'', str ''g.txt'', str ''h.txt'', str ''i.txt'']"
proof -
  have "filter (\<lambda>h. h \<noteq> [])
       (List.map_filter (\<lambda>e. getAttribute sampleDoc e (str ''href''))
         (getElements sampleDoc sel_feed_links 0)) =
     [str ''f.txt'', str ''g.txt'', str ''h.txt'', str ''i.txt'']"
    by code_simp
  with getFeedsFromDocument_href_verbatim [of sampleDoc 0] show ?thesis by simp
qed

section \<open>The bound of the descent\<close>

text \<open>
  The bound loses nothing on a store whose nodes can be ranked so that a child ranks below
  its parent: from a node of rank below \<open>k\<close>, a descent bounded by \<open>k\<close> and a descent with
  any larger bound find the same nodes.
\<close>

lemma descendantsUpTo_enough:
  assumes "\<And>n c. n < length d \<Longrightarrow> c \<in> set (children (d ! n)) \<Longrightarrow> rank c < rank n"
      and "rank n < k"
  shows "descendantsUpTo (k + j) d n = descendantsUpTo k d n"
  using assms(2)
proof (induction k arbitrary: n)
  case 0
  then show ?case by simp
next
  case (Suc k)
  show ?case
  proof (cases "n < length d")
    case True
    have "descendantsUpTo (k + j) d c = descendantsUpTo k d c"
      if "c \<in> set (children (d ! n))" for c
    proof -
      from assms(1) [OF True that] Suc.prems have "rank c < k" by simp
      then show ?thesis by (rule Suc.IH)
    qed
    with True show ?thesis by (simp cong: map_cong)
  next
    case False
    then show ?thesis by simp
  qed
qed

section \<open>Moving nodes\<close>

lemma nth_update_read: "j < length xs \<Longrightarrow> xs[i := x] ! j = (if i = j then x else xs ! j)"
  by (cases "i = j") simp_all

lemma detach_length [simp]: "length (detach n d) = length d"
  by (simp add: detach_def Let_def split: option.splits)

lemma appendChild_length [simp]: "length (appendChild p n d) = length d"
  by (simp add: appendChild_def Let_def)

lemma append_nodes_snoc:
  "append_nodes p (ns @ [n]) d = appendChild p n (append_nodes p ns d)"
  by (simp add: append_nodes_def)

lemma append_nodes_length [simp]: "length (append_nodes p ns d) = length d"
  by (induction ns rule: rev_induct) (simp_all add: append_nodes_snoc, simp add: append_nodes_def)

lemma detach_parent_other:
  "m \<noteq> n \<Longrightarrow> m < length d \<Longrightarrow> parent (detach n d ! m) = parent (d ! m)"
  by (auto simp: detach_def Let_def nth_update_read split: option.splits)

lemma detach_children_set:
  "q < length d \<Longrightarrow> set (children (detach n d ! q)) \<subseteq> set (children (d ! q))"
  by (auto simp: detach_def Let_def nth_update_read split: option.splits)

lemma detach_children_keep:
  "m \<noteq> n \<Longrightarrow> q < length d \<Longrightarrow> m \<in> set (children (d ! q)) \<Longrightarrow>
   m \<in> set (children (detach n d ! q))"
  by (auto simp: detach_def Let_def nth_update_read split: option.splits)

lemma detach_removes:
  "n < length d \<Longrightarrow> parent (d ! n) = Some q \<Longrightarrow> q < length d \<Longrightarrow>
   n \<notin> set (children (detach n d ! q))"
  by (auto simp: detach_def Let_def nth_update_read split: option.splits)

lemma detach_fields:
  "n < length d \<Longrightarrow>
   shadowRoot (detach m d ! n) = shadowRoot (d ! n) \<and>
   nodeName (detach m d ! n) = nodeName (d ! n) \<and>
   attrs (detach m d ! n) = attrs (d ! n)"
  by (auto simp: detach_def Let_def nth_update_read split: option.splits)

lemma appendChild_parent_other:
  "m \<noteq> n \<Longrightarrow> m < length d \<Longrightarrow> parent (appendChild p n d ! m) = parent (d ! m)"
  by (auto simp: appendChild_def Let_def nth_update_read detach_parent_other)

lemma appendChild_parent_self:
  "p < length d \<Longrightarrow> n < length d \<Longrightarrow> parent (appendChild p n d ! n) = Some p"
  by (simp add: appendChild_def Let_def)

lemma appendChild_child_new:
  "p < length d \<Longrightarrow> n < length d \<Longrightarrow> n \<in> set (children (appendChild p n d ! p))"
  by (cases "p = n") (auto simp: appendChild_def Let_def nth_update_read)

lemma appendChild_child_keep:
  "m \<noteq> n \<Longrightarrow> q < length d \<Longrightarrow> m \<in> set (children (d ! q)) \<Longrightarrow>
   m \<in> set (children (appendChild p n d ! q))"
  by (auto simp: appendChild_def Let_def nth_update_read detach_children_keep)

lemma appendChild_children_other:
  "q \<noteq> p \<Longrightarrow> q < length d \<Longrightarrow>
   set (children (appendChild p n d ! q)) \<subseteq> set (children (d ! q))"
  using detach_children_set [of q d n]
  by (auto simp: appendChild_def Let_def nth_update_read)

lemma appendChild_removes:
  "n < length d \<Longrightarrow> p < length d \<Longrightarrow> parent (d ! n) = Some q \<Longrightarrow> q < length d \<Longrightarrow> q \<noteq> p \<Longrightarrow>
   n \<notin> set (children (appendChild p n d ! q))"
  using detach_removes [of n d q]
  by (auto simp: appendChild_def Let_def nth_update_read)

lemma appendChild_fields:
  "n < length d \<Longrightarrow>
   shadowRoot (appendChild p m d ! n) = shadowRoot (d ! n) \<and>
   nodeName (appendChild p m d ! n) = nodeName (d ! n) \<and>
   attrs (appendChild p m d ! n) = attrs (d ! n)"
  by (auto simp: appendChild_def Let_def nth_update_read detach_fields)

lemma append_nodes_fields:
  "n < length d \<Longrightarrow>
   shadowRoot (append_nodes p ms d ! n) = shadowRoot (d ! n) \<and>
   nodeName (append_nodes p ms d ! n) = nodeName (d ! n) \<and>
   attrs (append_nodes p ms d ! n) = attrs (d ! n)"
  by (induction ms rule: rev_induct)
     (simp_all add: append_nodes_snoc appendChild_fields, simp add: append_nodes_def)

text \<open>Every appended node ends up as a child of \<open>p\<close>, with \<open>p\<close> as its parent.\<close>

lemma append_nodes_moved:
  assumes "p < length d" and "\<forall>n \<in> set ns. n < length d" and "e \<in> set ns"
  shows "e \<in> set (children (append_nodes p ns d ! p)) \<and>
         parent (append_nodes p ns d ! e) = Some p"
  using assms(2,3)
proof (induction ns rule: rev_induct)
  case Nil
  then show ?case by simp
next
  case (snoc n ns)
  let ?d = "append_nodes p ns d"
  have len: "p < length ?d" "n < length ?d" using assms(1) snoc.prems(1) by simp_all
  show ?case
  proof (cases "e = n")
    case True
    with len show ?thesis
      by (simp add: append_nodes_snoc appendChild_child_new appendChild_parent_self)
  next
    case False
    with snoc.prems have e: "e \<in> set ns" by simp
    with snoc have ih: "e \<in> set (children (?d ! p))" "parent (?d ! e) = Some p" by simp_all
    have "e < length ?d" using snoc.prems(1) e by simp
    with False ih len show ?thesis
      by (simp add: append_nodes_snoc appendChild_child_keep appendChild_parent_other)
  qed
qed

text \<open>An appended node is no longer among the children of the parent it had.\<close>

lemma append_nodes_left:
  assumes "p < length d" and "\<forall>n \<in> set ns. n < length d"
      and "q < length d" and "q \<noteq> p" and "parent (d ! e) = Some q" and "e < length d"
  shows "(e \<in> set ns \<longrightarrow> e \<notin> set (children (append_nodes p ns d ! q))) \<and>
         (e \<notin> set ns \<longrightarrow> parent (append_nodes p ns d ! e) = Some q)"
  using assms(2)
proof (induction ns rule: rev_induct)
  case Nil
  then show ?case using assms(5) by (simp add: append_nodes_def)
next
  case (snoc n ns)
  let ?d = "append_nodes p ns d"
  have len: "p < length ?d" "n < length ?d" "q < length ?d"
    using assms(1,3) snoc.prems by simp_all
  have ih: "(e \<in> set ns \<longrightarrow> e \<notin> set (children (?d ! q))) \<and>
            (e \<notin> set ns \<longrightarrow> parent (?d ! e) = Some q)"
    using snoc by simp
  show ?case
  proof (cases "e \<in> set ns")
    case True
    with ih have "e \<notin> set (children (?d ! q))" by simp
    with appendChild_children_other [OF assms(4) len(3), of n] True show ?thesis
      by (auto simp: append_nodes_snoc)
  next
    case notin: False
    with ih have par: "parent (?d ! e) = Some q" by simp
    show ?thesis
    proof (cases "e = n")
      case True
      with par len assms(4) show ?thesis
        by (simp add: append_nodes_snoc appendChild_removes)
    next
      case False
      have "e < length ?d" using assms(6) by simp
      with False notin par show ?thesis
        by (simp add: append_nodes_snoc appendChild_parent_other)
    qed
  qed
qed

section \<open>Rewriting attributes\<close>

lemma resolveAttribute_length [simp]: "length (resolveAttribute E b e d a) = length d"
  by (simp add: resolveAttribute_def setAttributeValue_def split: option.splits)

lemma resolveAttribute_other: "n \<noteq> e \<Longrightarrow> resolveAttribute E b e d a ! n = d ! n"
  by (simp add: resolveAttribute_def setAttributeValue_def split: option.splits)

lemma resolveAttribute_structure:
  "n < length d \<Longrightarrow>
   children (resolveAttribute E b e d a ! n) = children (d ! n) \<and>
   parent (resolveAttribute E b e d a ! n) = parent (d ! n) \<and>
   shadowRoot (resolveAttribute E b e d a ! n) = shadowRoot (d ! n) \<and>
   nodeName (resolveAttribute E b e d a ! n) = nodeName (d ! n)"
  by (simp add: resolveAttribute_def setAttributeValue_def nth_update_read split: option.splits)

lemma resolveAttribute_attrs:
  "e < length d \<Longrightarrow>
   attrs (resolveAttribute E b e d a ! e) a' =
     (if a' = a then map_option (\<lambda>v. Url_resolve E v b) (attrs (d ! e) a) else attrs (d ! e) a')"
  by (simp add: resolveAttribute_def setAttributeValue_def getAttribute_def split: option.splits)

lemma resolveAttributes_length [simp]: "length (foldl (resolveAttribute E b e) d as) = length d"
  by (induction as arbitrary: d) simp_all

lemma resolveAttributes_other: "n \<noteq> e \<Longrightarrow> foldl (resolveAttribute E b e) d as ! n = d ! n"
  by (induction as arbitrary: d) (simp_all add: resolveAttribute_other)

lemma resolveAttributes_structure:
  "n < length d \<Longrightarrow>
   children (foldl (resolveAttribute E b e) d as ! n) = children (d ! n) \<and>
   parent (foldl (resolveAttribute E b e) d as ! n) = parent (d ! n) \<and>
   shadowRoot (foldl (resolveAttribute E b e) d as ! n) = shadowRoot (d ! n) \<and>
   nodeName (foldl (resolveAttribute E b e) d as ! n) = nodeName (d ! n)"
  by (induction as arbitrary: d) (simp_all add: resolveAttribute_structure)

lemma resolveAttributes_attrs:
  "e < length d \<Longrightarrow> distinct as \<Longrightarrow>
   attrs (foldl (resolveAttribute E b e) d as ! e) a' =
     (if a' \<in> set as then map_option (\<lambda>v. Url_resolve E v b) (attrs (d ! e) a')
      else attrs (d ! e) a')"
proof (induction as arbitrary: d)
  case Nil
  show ?case by simp
next
  case (Cons a as)
  have "attrs (foldl (resolveAttribute E b e) (resolveAttribute E b e d a) as ! e) a' =
     (if a' \<in> set as
      then map_option (\<lambda>v. Url_resolve E v b) (attrs (resolveAttribute E b e d a ! e) a')
      else attrs (resolveAttribute E b e d a ! e) a')"
    using Cons.prems by (intro Cons.IH) simp_all
  with Cons.prems show ?case
    by (auto simp: resolveAttribute_attrs)
qed

lemma distinct_attrNames: "distinct attrNames"
  by (simp add: attrNames_def str_def)

lemma rewriteElement_length [simp]: "length (rewriteElement E b d e) = length d"
  by (simp add: rewriteElement_def)

lemma rewriteElement_other: "n \<noteq> e \<Longrightarrow> rewriteElement E b d e ! n = d ! n"
  by (simp add: rewriteElement_def resolveAttributes_other)

lemma rewriteElement_structure:
  "n < length d \<Longrightarrow>
   children (rewriteElement E b d e ! n) = children (d ! n) \<and>
   parent (rewriteElement E b d e ! n) = parent (d ! n) \<and>
   shadowRoot (rewriteElement E b d e ! n) = shadowRoot (d ! n) \<and>
   nodeName (rewriteElement E b d e ! n) = nodeName (d ! n)"
  by (simp add: rewriteElement_def resolveAttributes_structure)

lemma rewriteElement_attrs:
  assumes "e < length d"
  shows "attrs (rewriteElement E b d e ! e) a =
     (if a \<in> set attrNames then map_option (\<lambda>v. Url_resolve E v b) (attrs (d ! e) a)
      else attrs (d ! e) a)"
proof -
  have "distinct (filter (\<lambda>a. getAttribute d e a \<noteq> None) attrNames)"
    using distinct_attrNames by simp
  from resolveAttributes_attrs [OF assms this, of E b a] assms show ?thesis
    by (auto simp: rewriteElement_def getAttribute_def)
qed

lemma rewriteElements_length [simp]: "length (rewriteElements E b es d) = length d"
  unfolding rewriteElements_def by (induction es arbitrary: d) simp_all

lemma rewriteElements_structure:
  "n < length d \<Longrightarrow>
   children (rewriteElements E b es d ! n) = children (d ! n) \<and>
   parent (rewriteElements E b es d ! n) = parent (d ! n) \<and>
   shadowRoot (rewriteElements E b es d ! n) = shadowRoot (d ! n) \<and>
   nodeName (rewriteElements E b es d ! n) = nodeName (d ! n)"
  unfolding rewriteElements_def
  by (induction es arbitrary: d) (simp_all add: rewriteElement_structure)

lemma rewriteElements_untouched:
  "n \<notin> set es \<Longrightarrow> rewriteElements E b es d ! n = d ! n"
  unfolding rewriteElements_def
  by (induction es arbitrary: d) (simp_all add: rewriteElement_other)

lemma rewriteElements_attrs:
  "n < length d \<Longrightarrow> distinct es \<Longrightarrow> n \<in> set es \<Longrightarrow>
   attrs (rewriteElements E b es d ! n) a =
     (if a \<in> set attrNames then map_option (\<lambda>v. Url_resolve E v b) (attrs (d ! n) a)
      else attrs (d ! n) a)"
proof (induction es arbitrary: d)
  case Nil
  then show ?case by simp
next
  case (Cons e es)
  have fold: "rewriteElements E b (e # es) d = rewriteElements E b es (rewriteElement E b d e)"
    by (simp add: rewriteElements_def)
  show ?case
  proof (cases "n = e")
    case True
    with Cons.prems have "n \<notin> set es" by simp
    then have "rewriteElements E b es (rewriteElement E b d e) ! n = rewriteElement E b d e ! n"
      by (rule rewriteElements_untouched)
    with True Cons.prems show ?thesis
      by (simp add: fold rewriteElement_attrs)
  next
    case False
    with Cons.prems have "n \<in> set es" "distinct es" "n < length (rewriteElement E b d e)"
      by simp_all
    from Cons.IH [OF this(3,2,1)] False show ?thesis
      by (simp add: fold rewriteElement_other)
  qed
qed

lemma getElements_distinct: "distinct (getElements d sel c)"
  by (simp add: getElements_def descendants_def)

section \<open>Properties of getSandboxedElement\<close>

lemma str_tags [simp]:
  "str ''SECTION'' \<noteq> str ''LINK''" "str ''SECTION'' \<noteq> str ''STYLE''"
  by (simp_all add: str_def)

lemma sortContents_filter:
  "sortContents d es (head, body) =
     (head @ filter (\<lambda>e. e < length d \<and>
                          (nodeName (d ! e) = str ''LINK'' \<or> nodeName (d ! e) = str ''STYLE'')) es,
      body @ filter (\<lambda>e. e < length d \<and> nodeName (d ! e) = str ''SECTION'') es)"
  by (induction es arbitrary: head body) auto

lemma afterAttach_length [simp]: "length (afterAttach d0) = length d0 + 3"
  by (simp add: afterAttach_def attachShadow_def getStandardCss_def createElement_def)

lemma afterAttach_old: "e < length d0 \<Longrightarrow> afterAttach d0 ! e = d0 ! e"
  by (simp add: afterAttach_def attachShadow_def getStandardCss_def createElement_def
      nth_append)

lemma afterAttach_container:
  "shadowRoot (afterAttach d0 ! length d0) = Some (length d0 + 2)"
  by (simp add: afterAttach_def attachShadow_def getStandardCss_def createElement_def
      nth_append)

lemma assemble_eq:
  "assemble cs d0 =
     (length d0, length d0 + 2, append_nodes (length d0 + 2) (moved d0 cs) (afterAttach d0))"
  unfolding assemble_def moved_def afterAttach_def
  by (simp add: attachShadow_def getStandardCss_def createElement_def sortContents_filter)

lemma moved_range: "\<forall>n \<in> set (moved d0 cs). n < length (afterAttach d0)"
  by (auto simp: moved_def)

lemma moved_input:
  assumes "e \<in> set (asArray cs)" and "e < length d0"
      and "nodeName (d0 ! e) \<in> {str ''SECTION'', str ''LINK'', str ''STYLE''}"
  shows "e \<in> set (moved d0 cs)"
  using assms by (auto simp: moved_def afterAttach_old)

lemma children_in_descendants:
  "s < length d \<Longrightarrow> c \<in> set (children (d ! s)) \<Longrightarrow> c \<in> set (descendants d s)"
proof -
  assume s: "s < length d" and c: "c \<in> set (children (d ! s))"
  then obtain k where k: "length d = Suc k" by (cases "length d") auto
  have "c \<in> set (descendantsUpTo (Suc k) d s)"
    using s c by auto
  then show ?thesis by (simp add: descendants_def k)
qed

lemma link_matches:
  assumes "e < length d" and "nodeName (d ! e) = str ''LINK''"
      and "attrs (d ! e) (str ''href'') = Some v"
  shows "matches d sel_references e"
  using assms by (simp add: matches_def sel_references_def)

text \<open>
  C2, as the code has it. The scope holds the input nodes themselves, moved and not copied:
  every input element that is a SECTION, a LINK or a STYLE is, after the call, a child of
  the shadow root of the container returned, has that shadow root as its parent, and is no
  longer among the children of the parent it had in the source document. The rewrite of
  references is made on the nodes of the caller: on every node that was in the store before
  the call, the attributes after the call are the attributes before it, with href, src,
  action and data-src resolved against the folder of \<open>baseUrl\<close> where the node is inside
  the shadow root and matches the selector; so an input LINK has its own href resolved.
\<close>

theorem getSandboxedElement_moves_input:
  assumes "e \<in> set (asArray cs)" and "e < length d0"
      and "nodeName (d0 ! e) \<in> {str ''SECTION'', str ''LINK'', str ''STYLE''}"
  shows "\<exists>shadow. shadowRoot (snd (getSandboxedElement E cs baseUrl d0) !
                              fst (getSandboxedElement E cs baseUrl d0)) = Some shadow
           \<and> e \<in> set (children (snd (getSandboxedElement E cs baseUrl d0) ! shadow))
           \<and> parent (snd (getSandboxedElement E cs baseUrl d0) ! e) = Some shadow
           \<and> (\<forall>q < length d0. parent (d0 ! e) = Some q \<longrightarrow>
                 e \<notin> set (children (snd (getSandboxedElement E cs baseUrl d0) ! q)))
           \<and> (\<forall>n < length d0. \<forall>a.
                 getAttribute (snd (getSandboxedElement E cs baseUrl d0)) n a =
                   (if n \<in> set (getElements (snd (snd (assemble cs d0))) sel_references shadow)
                       \<and> a \<in> set attrNames
                    then map_option (\<lambda>v. Url_resolve E v (Url_folderOf E baseUrl))
                           (getAttribute d0 n a)
                    else getAttribute d0 n a))
           \<and> (\<forall>v. nodeName (d0 ! e) = str ''LINK'' \<and> getAttribute d0 e (str ''href'') = Some v
                 \<longrightarrow> getAttribute (snd (getSandboxedElement E cs baseUrl d0)) e (str ''href'')
                       = Some (Url_resolve E v (Url_folderOf E baseUrl)))"
proof -
  let ?s = "length d0 + 2"
  let ?d3 = "afterAttach d0"
  let ?d4 = "append_nodes ?s (moved d0 cs) ?d3"
  let ?es = "getElements ?d4 sel_references ?s"
  let ?b = "Url_folderOf E baseUrl"
  let ?d5 = "rewriteElements E ?b ?es ?d4"
  have res: "getSandboxedElement E cs baseUrl d0 = (length d0, ?d5)"
    by (simp add: getSandboxedElement_def assemble_eq)
  have d4: "snd (snd (assemble cs d0)) = ?d4" by (simp add: assemble_eq)
  have mem: "e \<in> set (moved d0 cs)" using assms by (rule moved_input)
  have s_in: "?s < length ?d3" by simp
  have m4: "e \<in> set (children (?d4 ! ?s)) \<and> parent (?d4 ! e) = Some ?s"
    using append_nodes_moved [OF s_in moved_range mem] .
  have c: "shadowRoot (?d5 ! length d0) = Some ?s"
    using rewriteElements_structure [of "length d0" ?d4 E ?b ?es]
      append_nodes_fields [of "length d0" ?d3 ?s "moved d0 cs"] afterAttach_container [of d0]
    by simp
  have k: "e \<in> set (children (?d5 ! ?s))"
    using rewriteElements_structure [of ?s ?d4 E ?b ?es] m4 by simp
  have p: "parent (?d5 ! e) = Some ?s"
    using rewriteElements_structure [of e ?d4 E ?b ?es] m4 assms(2)
    by simp
  have l: "\<forall>q < length d0. parent (d0 ! e) = Some q \<longrightarrow> e \<notin> set (children (?d5 ! q))"
  proof (intro allI impI)
    fix q assume q: "q < length d0" and par: "parent (d0 ! e) = Some q"
    have "parent (?d3 ! e) = Some q" using par assms(2) by (simp add: afterAttach_old)
    from append_nodes_left [where p = ?s and d = ?d3 and ns = "moved d0 cs" and q = q and e = e,
        OF s_in moved_range _ _ this] q assms(2) mem
    have "e \<notin> set (children (?d4 ! q))" by simp
    then show "e \<notin> set (children (?d5 ! q))"
      using rewriteElements_structure [of q ?d4 E ?b ?es] q by simp
  qed
  have old: "attrs (?d4 ! n) = attrs (d0 ! n)" if "n < length d0" for n
    using that append_nodes_fields [of n ?d3 ?s "moved d0 cs"] by (simp add: afterAttach_old)
  have r: "getAttribute ?d5 n a =
             (if n \<in> set ?es \<and> a \<in> set attrNames
              then map_option (\<lambda>v. Url_resolve E v ?b) (getAttribute d0 n a)
              else getAttribute d0 n a)" if n: "n < length d0" for n a
  proof (cases "n \<in> set ?es")
    case True
    have "n < length ?d4" using n by simp
    from rewriteElements_attrs [OF this getElements_distinct True, of E ?b a] old [OF n] n True
    show ?thesis by (simp add: getAttribute_def)
  next
    case False
    with old [OF n] n show ?thesis
      by (simp add: getAttribute_def rewriteElements_untouched)
  qed
  have h: "getAttribute ?d5 e (str ''href'') = Some (Url_resolve E v ?b)"
    if link: "nodeName (d0 ! e) = str ''LINK''" and v: "getAttribute d0 e (str ''href'') = Some v"
    for v
  proof -
    have e4: "e < length ?d4" using assms(2) by simp
    have "nodeName (?d4 ! e) = str ''LINK''"
      using append_nodes_fields [of e ?d3 ?s "moved d0 cs"] assms(2) link
      by (simp add: afterAttach_old)
    moreover have "attrs (?d4 ! e) (str ''href'') = Some v"
      using old [OF assms(2)] v assms(2) by (simp add: getAttribute_def)
    ultimately have "matches ?d4 sel_references e" using e4 by (intro link_matches)
    moreover have "e \<in> set (descendants ?d4 ?s)"
      using m4 by (intro children_in_descendants) simp_all
    ultimately have "e \<in> set ?es" by (simp add: getElements_def)
    moreover have "str ''href'' \<in> set attrNames" by (simp add: attrNames_def)
    ultimately show ?thesis using r [OF assms(2), of "str ''href''"] v by simp
  qed
  from c k p l r h show ?thesis unfolding res d4 by auto
qed

text \<open>The link and the section of the sample page: the link and the anchor inside the
  section, both nodes of the page, have their href resolved.\<close>

theorem getSandboxedElement_moves_input_witness:
  "1 \<in> set (asArray (Array [1, 3])) \<and> 1 < length samplePage
   \<and> nodeName (samplePage ! 1) \<in> {str ''SECTION'', str ''LINK'', str ''STYLE''}
   \<and> nodeName (samplePage ! 1) = str ''LINK''
   \<and> getAttribute samplePage 1 (str ''href'') = Some (str ''s.css'')
   \<and> shadowRoot (snd sandboxedPage ! fst sandboxedPage) = Some 7
   \<and> 1 \<in> set (children (snd sandboxedPage ! 7))
   \<and> parent (snd sandboxedPage ! 1) = Some 7
   \<and> parent (samplePage ! 1) = Some 0
   \<and> 1 \<notin> set (children (snd sandboxedPage ! 0))
   \<and> getAttribute (snd sandboxedPage) 1 (str ''href'') = Some (str ''https://x/r/s.css'')
   \<and> getAttribute samplePage 4 (str ''href'') = Some (str ''p.html'')
   \<and> getAttribute (snd sandboxedPage) 4 (str ''href'') = Some (str ''https://x/r/p.html'')"
proof -
  let ?R = "getSandboxedElement offlineEnv (Array [1, 3]) (str ''https://x/r/index.html'')
              samplePage"
  have h1: "1 \<in> set (asArray (Array [1, 3]))" by code_simp
  have h2: "1 < length samplePage" by code_simp
  have h3: "nodeName (samplePage ! 1) \<in> {str ''SECTION'', str ''LINK'', str ''STYLE''}"
    by code_simp
  have h4: "nodeName (samplePage ! 1) = str ''LINK''" by code_simp
  have h5: "getAttribute samplePage 1 (str ''href'') = Some (str ''s.css'')" by code_simp
  have h6: "parent (samplePage ! 1) = Some 0" "0 < length samplePage" "4 < length samplePage"
    by code_simp+
  have h7: "getAttribute samplePage 4 (str ''href'') = Some (str ''p.html'')" by code_simp
  have s7: "shadowRoot (snd ?R ! fst ?R) = Some 7" by code_simp
  have m: "4 \<in> set (getElements (snd (snd (assemble (Array [1, 3]) samplePage)))
                    sel_references 7)" "str ''href'' \<in> set attrNames"
    by code_simp+
  have u: "Url_resolve offlineEnv (str ''s.css'')
             (Url_folderOf offlineEnv (str ''https://x/r/index.html'')) = str ''https://x/r/s.css''"
          "Url_resolve offlineEnv (str ''p.html'')
             (Url_folderOf offlineEnv (str ''https://x/r/index.html'')) = str ''https://x/r/p.html''"
    by code_simp+
  from getSandboxedElement_moves_input [OF h1 h2 h3, of offlineEnv "str ''https://x/r/index.html''"]
  obtain shadow where sh: "shadowRoot (snd ?R ! fst ?R) = Some shadow"
    and a: "1 \<in> set (children (snd ?R ! shadow))"
    and b: "parent (snd ?R ! 1) = Some shadow"
    and c: "\<forall>q < length samplePage. parent (samplePage ! 1) = Some q \<longrightarrow>
              1 \<notin> set (children (snd ?R ! q))"
    and d: "\<forall>n < length samplePage. \<forall>a.
                 getAttribute (snd ?R) n a =
                   (if n \<in> set (getElements (snd (snd (assemble (Array [1, 3]) samplePage)))
                                 sel_references shadow)
                       \<and> a \<in> set attrNames
                    then map_option (\<lambda>v. Url_resolve offlineEnv v
                                       (Url_folderOf offlineEnv (str ''https://x/r/index.html'')))
                           (getAttribute samplePage n a)
                    else getAttribute samplePage n a)"
    and e: "\<forall>v. nodeName (samplePage ! 1) = str ''LINK''
                 \<and> getAttribute samplePage 1 (str ''href'') = Some v
                 \<longrightarrow> getAttribute (snd ?R) 1 (str ''href'')
                       = Some (Url_resolve offlineEnv v
                                 (Url_folderOf offlineEnv (str ''https://x/r/index.html'')))"
    by blast
  from sh s7 have seven: "shadow = 7" by simp
  from c h6 have r1: "1 \<notin> set (children (snd ?R ! 0))" by blast
  from e h4 h5 u have r2: "getAttribute (snd ?R) 1 (str ''href'') = Some (str ''https://x/r/s.css'')"
    by simp
  from d h6(3) have "getAttribute (snd ?R) 4 (str ''href'') =
                   (if 4 \<in> set (getElements (snd (snd (assemble (Array [1, 3]) samplePage)))
                                 sel_references shadow)
                       \<and> str ''href'' \<in> set attrNames
                    then map_option (\<lambda>v. Url_resolve offlineEnv v
                                       (Url_folderOf offlineEnv (str ''https://x/r/index.html'')))
                           (getAttribute samplePage 4 (str ''href''))
                    else getAttribute samplePage 4 (str ''href''))" by blast
  with m seven h7 u
  have r3: "getAttribute (snd ?R) 4 (str ''href'') = Some (str ''https://x/r/p.html'')" by simp
  from h1 h2 h3 h4 h5 h6(1) h7 s7 a b seven r1 r2 r3 show ?thesis
    unfolding sandboxedPage_def by simp
qed

text \<open>
  Against C2 as it is worded: the section (node 1) that the caller passes is a child of the
  shadow root (node 6) of the container returned, so the scope and the caller share it; the
  body of the source document (node 0) has lost its only child; and the anchor of the source
  document (node 2) has had its href rewritten.
\<close>

theorem getSandboxedElement_shares_input_counterexample:
  "shadowRoot (snd sandboxedSample ! fst sandboxedSample) = Some 6
   \<and> 1 \<in> set (children (snd sandboxedSample ! 6))
   \<and> children (sampleReel ! 0) = [1] \<and> children (snd sandboxedSample ! 0) = []
   \<and> getAttribute sampleReel 2 (str ''href'') = Some (str ''p.html'')
   \<and> getAttribute (snd sandboxedSample) 2 (str ''href'') = Some (str ''https://x/r/p.html'')"
  by code_simp

text \<open>
  C5, as the code has it. With the store \<open>d4\<close> as it is after \<open>shadow.append\<close>, the call
  resolves the attributes href, src, action and data-src of the elements inside the shadow
  root that match \<open>LINK[href], A[href], IMG[src], FORM[action], SCRIPT[src]\<close>, each against
  the folder of \<open>baseUrl\<close>, and leaves every other attribute and every other element as they
  are.
\<close>

theorem getSandboxedElement_rewrites_selected:
  assumes "assemble cs d0 = (container, shadow, d4)" and "e < length d4"
  shows "getAttribute (snd (getSandboxedElement E cs baseUrl d0)) e a =
           (if e \<in> set (getElements d4 sel_references shadow) \<and> a \<in> set attrNames
            then map_option (\<lambda>v. Url_resolve E v (Url_folderOf E baseUrl)) (getAttribute d4 e a)
            else getAttribute d4 e a)"
proof -
  let ?es = "getElements d4 sel_references shadow"
  let ?b = "Url_folderOf E baseUrl"
  have res: "snd (getSandboxedElement E cs baseUrl d0) = rewriteElements E ?b ?es d4"
    using assms(1) by (simp add: getSandboxedElement_def)
  show ?thesis
  proof (cases "e \<in> set ?es")
    case True
    from rewriteElements_attrs [OF assms(2) getElements_distinct True, of E ?b a]
    show ?thesis using True assms(2) by (simp add: res getAttribute_def)
  next
    case False
    then show ?thesis using assms(2)
      by (simp add: res getAttribute_def rewriteElements_untouched)
  qed
qed

text \<open>The anchor of the sample section: its href "p.html" becomes "https://x/r/p.html".\<close>

theorem getSandboxedElement_rewrites_selected_witness:
  "assemble (Single 1) sampleReel =
     (fst (assemble (Single 1) sampleReel), fst (snd (assemble (Single 1) sampleReel)),
      snd (snd (assemble (Single 1) sampleReel)))
   \<and> 2 < length (snd (snd (assemble (Single 1) sampleReel)))
   \<and> 2 \<in> set (getElements (snd (snd (assemble (Single 1) sampleReel))) sel_references
               (fst (snd (assemble (Single 1) sampleReel))))
   \<and> getAttribute (snd sandboxedSample) 2 (str ''href'') = Some (str ''https://x/r/p.html'')"
proof -
  let ?a = "assemble (Single 1) sampleReel"
  have h1: "?a = (fst ?a, fst (snd ?a), snd (snd ?a))" by simp
  have h2: "2 < length (snd (snd ?a))" by code_simp
  have h3: "2 \<in> set (getElements (snd (snd ?a)) sel_references (fst (snd ?a)))" by code_simp
  have v: "(if 2 \<in> set (getElements (snd (snd ?a)) sel_references (fst (snd ?a)))
               \<and> str ''href'' \<in> set attrNames
            then map_option
                   (\<lambda>v. Url_resolve offlineEnv v
                          (Url_folderOf offlineEnv (str ''https://x/r/index.html'')))
                   (getAttribute (snd (snd ?a)) 2 (str ''href''))
            else getAttribute (snd (snd ?a)) 2 (str ''href''))
           = Some (str ''https://x/r/p.html'')"
    by code_simp
  from getSandboxedElement_rewrites_selected
         [OF h1 h2, of offlineEnv "str ''https://x/r/index.html''" "str ''href''"] v
  have "getAttribute (snd sandboxedSample) 2 (str ''href'') = Some (str ''https://x/r/p.html'')"
    unfolding sandboxedSample_def by simp
  with h1 h2 h3 show ?thesis by blast
qed

text \<open>
  Against C5 as it is worded: the video (node 3) is inside the scope and carries a \<open>src\<close>,
  and after the call its \<open>src\<close> is still "v.mp4", not "https://x/r/v.mp4".
\<close>

theorem getSandboxedElement_leaves_video_counterexample:
  "3 \<in> set (descendants (snd sandboxedSample) 6)
   \<and> getAttribute (snd sandboxedSample) 3 (str ''src'') = Some (str ''v.mp4'')
   \<and> Url_resolve offlineEnv (str ''v.mp4'')
        (Url_folderOf offlineEnv (str ''https://x/r/index.html'')) = str ''https://x/r/v.mp4''"
  by code_simp

section \<open>Properties of getFeedMetaData\<close>

lemma upscan_found: "scanLevel E u = Some md \<Longrightarrow> upscan E (Suc n) u = (Inr (Some md), [u])"
  by simp

lemma upscan_root:
  "scanLevel E u = None \<Longrightarrow> new_URL E (str ''..'') u = Some u \<Longrightarrow>
   upscan E (Suc n) u = (Inr None, [u])"
  by simp

lemma upscan_step:
  "scanLevel E u = None \<Longrightarrow> new_URL E (str ''..'') u = Some p \<Longrightarrow> p \<noteq> u \<Longrightarrow>
   upscan E (Suc n) u = (fst (upscan E n p), u # snd (upscan E n p))"
  by (simp add: split_def Let_def)

text \<open>One round of the loop ends in one of four ways.\<close>

lemma upscan_Suc_cases:
  "(\<exists>md. scanLevel E u = Some md \<and> upscan E (Suc n) u = (Inr (Some md), [u]))
   \<or> (scanLevel E u = None \<and> upscan E (Suc n) u = (Inl TypeError, [u]))
   \<or> (scanLevel E u = None \<and> upscan E (Suc n) u = (Inr None, [u]))
   \<or> (\<exists>p. scanLevel E u = None \<and> p \<noteq> u
          \<and> upscan E (Suc n) u = (fst (upscan E n p), u # snd (upscan E n p)))"
proof (cases "scanLevel E u")
  case (Some md)
  then show ?thesis by simp
next
  case None
  show ?thesis
  proof (cases "new_URL E (str ''..'') u")
    case n: None
    with None show ?thesis by simp
  next
    case (Some p)
    show ?thesis
    proof (cases "p = u")
      case True
      with None Some show ?thesis by simp
    next
      case False
      with None Some upscan_step [of E u p n] show ?thesis by blast
    qed
  qed
qed

lemma upscan_fetches: "length (snd (upscan E n u)) \<le> n"
proof (induction n arbitrary: u)
  case 0
  show ?case by simp
next
  case (Suc n)
  consider (stop) "length (snd (upscan E (Suc n) u)) = 1"
    | (up) p where "upscan E (Suc n) u = (fst (upscan E n p), u # snd (upscan E n p))"
    using upscan_Suc_cases [of E u n] by fastforce
  then show ?case
  proof cases
    case stop
    then show ?thesis by simp
  next
    case (up p)
    with Suc.IH [of p] show ?thesis by simp
  qed
qed

lemma upscan_nothing:
  "\<forall>v \<in> set (snd (upscan E n u)). scanLevel E v = None \<Longrightarrow>
   fst (upscan E n u) \<noteq> Inl TypeError \<Longrightarrow> fst (upscan E n u) = Inr None"
proof (induction n arbitrary: u)
  case 0
  show ?case by simp
next
  case (Suc n)
  consider (found) md where "scanLevel E u = Some md" "upscan E (Suc n) u = (Inr (Some md), [u])"
    | (threw) "upscan E (Suc n) u = (Inl TypeError, [u])"
    | (root) "upscan E (Suc n) u = (Inr None, [u])"
    | (up) p where "upscan E (Suc n) u = (fst (upscan E n p), u # snd (upscan E n p))"
    using upscan_Suc_cases [of E u n] by blast
  then show ?case
  proof cases
    case (found md)
    with Suc.prems show ?thesis by simp
  next
    case threw
    with Suc.prems show ?thesis by simp
  next
    case root
    then show ?thesis by simp
  next
    case (up p)
    with Suc.prems Suc.IH [of p] show ?thesis by simp
  qed
qed

lemma upscan_cap:
  "\<forall>v. scanLevel E v = None \<Longrightarrow> \<forall>v. \<exists>w. new_URL E (str ''..'') v = Some w \<and> w \<noteq> v \<Longrightarrow>
   fst (upscan E n u) = Inr None \<and> length (snd (upscan E n u)) = n"
proof (induction n arbitrary: u)
  case 0
  show ?case by simp
next
  case (Suc n)
  from Suc.prems(2) obtain w where w: "new_URL E (str ''..'') u = Some w" "w \<noteq> u" by blast
  from Suc.prems(1) have "scanLevel E u = None" by simp
  from upscan_step [OF this w] Suc.IH [OF Suc.prems, of w] show ?case by simp
qed

text \<open>Along a climb the scan fetches the directories of the climb, one after the other, and
  what ends it is what the last directory does.\<close>

lemma upscan_climb_found:
  "climbs E us \<Longrightarrow> length us \<le> n \<Longrightarrow> scanLevel E (last us) = Some md \<Longrightarrow>
   upscan E n (hd us) = (Inr (Some md), us)"
proof (induction E us arbitrary: n rule: climbs.induct)
  case (1 E)
  then show ?case by simp
next
  case (2 E u)
  then obtain m where "n = Suc m" by (cases n) auto
  with 2 show ?case by (simp add: upscan_found)
next
  case (3 E u v us)
  then obtain m where n: "n = Suc m" by (cases n) auto
  from 3 n have "upscan E m (hd (v # us)) = (Inr (Some md), v # us)"
    by (intro "3.IH") simp_all
  with 3 n upscan_step [of E u v m] show ?case by simp
qed

lemma upscan_climb_root:
  "climbs E us \<Longrightarrow> length us \<le> n \<Longrightarrow> scanLevel E (last us) = None \<Longrightarrow>
   new_URL E (str ''..'') (last us) = Some (last us) \<Longrightarrow>
   upscan E n (hd us) = (Inr None, us)"
proof (induction E us arbitrary: n rule: climbs.induct)
  case (1 E)
  then show ?case by simp
next
  case (2 E u)
  then obtain m where "n = Suc m" by (cases n) auto
  with 2 show ?case by (simp add: upscan_root)
next
  case (3 E u v us)
  then obtain m where n: "n = Suc m" by (cases n) auto
  from 3 n have "upscan E m (hd (v # us)) = (Inr None, v # us)"
    by (intro "3.IH") simp_all
  with 3 n upscan_step [of E u v m] show ?case by simp
qed

lemma upscan_climb_threw:
  "climbs E us \<Longrightarrow> length us \<le> n \<Longrightarrow> scanLevel E (last us) = None \<Longrightarrow>
   new_URL E (str ''..'') (last us) = None \<Longrightarrow>
   upscan E n (hd us) = (Inl TypeError, us)"
proof (induction E us arbitrary: n rule: climbs.induct)
  case (1 E)
  then show ?case by simp
next
  case (2 E u)
  then obtain m where "n = Suc m" by (cases n) auto
  with 2 show ?case by simp
next
  case (3 E u v us)
  then obtain m where n: "n = Suc m" by (cases n) auto
  from 3 n have "upscan E m (hd (v # us)) = (Inl TypeError, v # us)"
    by (intro "3.IH") simp_all
  with 3 n upscan_step [of E u v m] show ?case by simp
qed

lemma str_markers [simp]:
  "str ''meta'' \<noteq> str ''link''" "str ''link'' \<noteq> str ''meta''"
  "str ''feed-description'' \<noteq> str ''description''" "str ''feed-icon'' \<noteq> str ''icon''"
  by (simp_all add: str_def)

lemma str_markers2 [simp]:
  "str ''description'' \<noteq> str ''feed-description''" "str ''icon'' \<noteq> str ''feed-icon''"
  by (simp_all add: str_def)

lemma trapCallback_fields:
  "feedDescription (trapCallback st x) =
     (if isFeedDescription x then orEmpty (el_attrs x (str ''content'')) else feedDescription st)"
  "standardDescription (trapCallback st x) =
     (if isDescription x then orEmpty (el_attrs x (str ''content'')) else standardDescription st)"
  "feedIcon (trapCallback st x) =
     (if isFeedIcon x then orEmpty (el_attrs x (str ''href'')) else feedIcon st)"
  "standardIcon (trapCallback st x) =
     (if isIcon x then orEmpty (el_attrs x (str ''href'')) else standardIcon st)"
  by (auto simp: trapCallback_def isFeedDescription_def isDescription_def isFeedIcon_def
      isIcon_def Let_def)

lemma foldl_trapCallback_fields:
  "feedDescription (foldl trapCallback st els) =
     (if filter isFeedDescription els = [] then feedDescription st
      else lastValue isFeedDescription (str ''content'') els)"
  "standardDescription (foldl trapCallback st els) =
     (if filter isDescription els = [] then standardDescription st
      else lastValue isDescription (str ''content'') els)"
  "feedIcon (foldl trapCallback st els) =
     (if filter isFeedIcon els = [] then feedIcon st
      else lastValue isFeedIcon (str ''href'') els)"
  "standardIcon (foldl trapCallback st els) =
     (if filter isIcon els = [] then standardIcon st
      else lastValue isIcon (str ''href'') els)"
  by (induction els rule: rev_induct) (simp_all add: trapCallback_fields lastValue_def)

lemma readMetaData_exact:
  "description (readMetaData els) =
     (if lastValue isFeedDescription (str ''content'') els \<noteq> []
      then lastValue isFeedDescription (str ''content'') els
      else lastValue isDescription (str ''content'') els)"
  "icon (readMetaData els) =
     (if lastValue isFeedIcon (str ''href'') els \<noteq> []
      then lastValue isFeedIcon (str ''href'') els
      else lastValue isIcon (str ''href'') els)"
  by (simp_all add: readMetaData_def Let_def orElse_def foldl_trapCallback_fields)
     (simp_all add: lastValue_def)

lemma scanLevel_source:
  "scanLevel E u = Some md \<Longrightarrow>
   \<exists>r. getHttpContent E u 0 = Some r \<and> md = readMetaData (reader_elements E (bodyText r))
        \<and> (description md \<noteq> [] \<or> icon md \<noteq> [])"
  by (auto simp: scanLevel_def Let_def split: option.splits if_splits)

text \<open>
  C8. With \<open>D\<close> the folder of the feed: along any climb from \<open>D\<close> of at most 1000
  directories, all but the last yielding nothing, the metadata of the last directory is
  returned as soon as that directory yields a description or an icon, and the directories
  fetched are those of the climb and no others, so that nothing above is consulted; the
  metadata of a level is read from the document of that level alone; and within a document
  the description is the value of the last feed-specific marker when it has one, and
  otherwise the value of the last generic marker, and the same for the icon.
\<close>

theorem getFeedMetaData_first_level_wins:
  "(\<forall>us md. climbs E us \<and> hd us = Url_folderOf E feedUrl \<and> length us \<le> 1000
        \<and> scanLevel E (last us) = Some md \<longrightarrow>
      getFeedMetaData E feedUrl = (Inr (Some md), us))
   \<and> (\<forall>u md. scanLevel E u = Some md \<longrightarrow>
        (\<exists>r. getHttpContent E u 0 = Some r
            \<and> md = readMetaData (reader_elements E (bodyText r))))
   \<and> (\<forall>els. description (readMetaData els) =
               (if lastValue isFeedDescription (str ''content'') els \<noteq> []
                then lastValue isFeedDescription (str ''content'') els
                else lastValue isDescription (str ''content'') els)
           \<and> icon (readMetaData els) =
               (if lastValue isFeedIcon (str ''href'') els \<noteq> []
                then lastValue isFeedIcon (str ''href'') els
                else lastValue isIcon (str ''href'') els))"
proof (intro conjI allI impI)
  fix us md
  assume "climbs E us \<and> hd us = Url_folderOf E feedUrl \<and> length us \<le> 1000
        \<and> scanLevel E (last us) = Some md"
  with upscan_climb_found [of E us 1000 md]
  show "getFeedMetaData E feedUrl = (Inr (Some md), us)"
    by (simp add: getFeedMetaData_def)
next
  fix u md assume "scanLevel E u = Some md"
  from scanLevel_source [OF this]
  show "\<exists>r. getHttpContent E u 0 = Some r \<and> md = readMetaData (reader_elements E (bodyText r))"
    by blast
next
  fix els
  show "description (readMetaData els) =
               (if lastValue isFeedDescription (str ''content'') els \<noteq> []
                then lastValue isFeedDescription (str ''content'') els
                else lastValue isDescription (str ''content'') els)"
    by (rule readMetaData_exact)
next
  fix els
  show "icon (readMetaData els) =
               (if lastValue isFeedIcon (str ''href'') els \<noteq> []
                then lastValue isFeedIcon (str ''href'') els
                else lastValue isIcon (str ''href'') els)"
    by (rule readMetaData_exact)
qed

text \<open>
  The sample site. A feed in \<open>https://x/a/b/\<close> gets the metadata of \<open>https://x/\<close>, two levels
  up, after three fetches; of the markers of that document the feed-specific ones are
  returned; and a document whose feed description has no value gives the generic one.
\<close>

theorem getFeedMetaData_first_level_wins_witness:
  "climbs siteEnv threeLevels
   \<and> hd threeLevels = Url_folderOf siteEnv (str ''https://x/a/b/feed.txt'')
   \<and> length threeLevels \<le> 1000
   \<and> scanLevel siteEnv (last threeLevels)
       = Some \<lparr>description = str ''feedy'', icon = str ''f.png''\<rparr>
   \<and> getFeedMetaData siteEnv (str ''https://x/a/b/feed.txt'')
       = (Inr (Some \<lparr>description = str ''feedy'', icon = str ''f.png''\<rparr>), threeLevels)
   \<and> (\<exists>r. getHttpContent siteEnv (last threeLevels) 0 = Some r
          \<and> \<lparr>description = str ''feedy'', icon = str ''f.png''\<rparr>
              = readMetaData (reader_elements siteEnv (bodyText r)))
   \<and> description (readMetaData rootElements) = str ''feedy''
   \<and> icon (readMetaData rootElements) = str ''f.png''
   \<and> description (readMetaData genericElements) = str ''generic''
   \<and> icon (readMetaData genericElements) = str ''i.png''"
proof -
  let ?md = "\<lparr>description = str ''feedy'', icon = str ''f.png''\<rparr>"
  note T = getFeedMetaData_first_level_wins
  have a1: "climbs siteEnv threeLevels" by code_simp
  have a2: "hd threeLevels = Url_folderOf siteEnv (str ''https://x/a/b/feed.txt'')" by code_simp
  have a3: "length threeLevels \<le> 1000" by code_simp
  have a4: "scanLevel siteEnv (last threeLevels) = Some ?md" by code_simp
  from T [of siteEnv "str ''https://x/a/b/feed.txt''"] a1 a2 a3 a4
  have r1: "getFeedMetaData siteEnv (str ''https://x/a/b/feed.txt'')
              = (Inr (Some ?md), threeLevels)" by blast
  from T [of siteEnv "str ''https://x/a/b/feed.txt''"] a4
  have r2: "\<exists>r. getHttpContent siteEnv (last threeLevels) 0 = Some r
          \<and> ?md = readMetaData (reader_elements siteEnv (bodyText r))" by blast
  have v: "(if lastValue isFeedDescription (str ''content'') rootElements \<noteq> []
            then lastValue isFeedDescription (str ''content'') rootElements
            else lastValue isDescription (str ''content'') rootElements) = str ''feedy''"
          "(if lastValue isFeedIcon (str ''href'') rootElements \<noteq> []
            then lastValue isFeedIcon (str ''href'') rootElements
            else lastValue isIcon (str ''href'') rootElements) = str ''f.png''"
          "(if lastValue isFeedDescription (str ''content'') genericElements \<noteq> []
            then lastValue isFeedDescription (str ''content'') genericElements
            else lastValue isDescription (str ''content'') genericElements) = str ''generic''"
          "(if lastValue isFeedIcon (str ''href'') genericElements \<noteq> []
            then lastValue isFeedIcon (str ''href'') genericElements
            else lastValue isIcon (str ''href'') genericElements) = str ''i.png''"
    by code_simp+
  from T [of siteEnv "str ''https://x/a/b/feed.txt''"] v
  have r3: "description (readMetaData rootElements) = str ''feedy''"
           "icon (readMetaData rootElements) = str ''f.png''"
           "description (readMetaData genericElements) = str ''generic''"
           "icon (readMetaData genericElements) = str ''i.png''"
    by simp_all
  from a1 a2 a3 a4 r1 r2 r3 show ?thesis by blast
qed

text \<open>
  C9, as the code has it. The scan ends for every feed URL: \<open>getHttpContent\<close> is called at
  most 1000 times; along any climb from the folder of the feed, the scan stops with \<open>null\<close> at
  the first directory that yields nothing and is its own parent; when no directory yields
  anything and the parent is always another directory, it stops after exactly 1000
  directories with \<open>null\<close>; and whenever it ends with a value and none of the directories
  fetched has yielded anything, that value is \<open>null\<close>.
\<close>

theorem getFeedMetaData_terminates:
  "length (snd (getFeedMetaData E feedUrl)) \<le> 1000
   \<and> (\<forall>us. climbs E us \<and> hd us = Url_folderOf E feedUrl \<and> length us \<le> 1000
        \<and> scanLevel E (last us) = None
        \<and> new_URL E (str ''..'') (last us) = Some (last us) \<longrightarrow>
      getFeedMetaData E feedUrl = (Inr None, us))
   \<and> ((\<forall>v. scanLevel E v = None) \<and> (\<forall>v. \<exists>w. new_URL E (str ''..'') v = Some w \<and> w \<noteq> v) \<longrightarrow>
      fst (getFeedMetaData E feedUrl) = Inr None
      \<and> length (snd (getFeedMetaData E feedUrl)) = 1000)
   \<and> ((\<forall>v \<in> set (snd (getFeedMetaData E feedUrl)). scanLevel E v = None)
        \<and> fst (getFeedMetaData E feedUrl) \<noteq> Inl TypeError \<longrightarrow>
      fst (getFeedMetaData E feedUrl) = Inr None)"
proof (intro conjI allI impI)
  show "length (snd (getFeedMetaData E feedUrl)) \<le> 1000"
    unfolding getFeedMetaData_def by (rule upscan_fetches)
next
  fix us
  assume "climbs E us \<and> hd us = Url_folderOf E feedUrl \<and> length us \<le> 1000
        \<and> scanLevel E (last us) = None
        \<and> new_URL E (str ''..'') (last us) = Some (last us)"
  with upscan_climb_root [of E us 1000]
  show "getFeedMetaData E feedUrl = (Inr None, us)"
    by (simp add: getFeedMetaData_def)
next
  assume h: "(\<forall>v. scanLevel E v = None) \<and> (\<forall>v. \<exists>w. new_URL E (str ''..'') v = Some w \<and> w \<noteq> v)"
  from upscan_cap [of E 1000 "Url_folderOf E feedUrl"] h
  show "fst (getFeedMetaData E feedUrl) = Inr None"
       "length (snd (getFeedMetaData E feedUrl)) = 1000"
    unfolding getFeedMetaData_def by blast+
next
  assume "(\<forall>v \<in> set (snd (getFeedMetaData E feedUrl)). scanLevel E v = None)
        \<and> fst (getFeedMetaData E feedUrl) \<noteq> Inl TypeError"
  then show "fst (getFeedMetaData E feedUrl) = Inr None"
    unfolding getFeedMetaData_def using upscan_nothing [of E 1000 "Url_folderOf E feedUrl"]
    by blast
qed

lemma scanLevel_no_network: "window_fetch E = (\<lambda>_. None) \<Longrightarrow> scanLevel E v = None"
  by (simp add: scanLevel_def getHttpContent_def)

text \<open>
  Three runs without documents: from \<open>https://x/a/b/\<close> up to the root, which is its own
  parent, three fetches; over directories without end, where the bound of 1000 stops the
  scan; and the first run again, read as a scan that found nothing.
\<close>

theorem getFeedMetaData_terminates_witness:
  "climbs bareEnv threeLevels
   \<and> hd threeLevels = Url_folderOf bareEnv (str ''https://x/a/b/feed.txt'')
   \<and> length threeLevels \<le> 1000
   \<and> scanLevel bareEnv (last threeLevels) = None
   \<and> new_URL bareEnv (str ''..'') (last threeLevels) = Some (last threeLevels)
   \<and> getFeedMetaData bareEnv (str ''https://x/a/b/feed.txt'') = (Inr None, threeLevels)
   \<and> (\<forall>v. scanLevel endlessEnv v = None)
   \<and> (\<forall>v. \<exists>w. new_URL endlessEnv (str ''..'') v = Some w \<and> w \<noteq> v)
   \<and> fst (getFeedMetaData endlessEnv (str ''https://x/feed.txt'')) = Inr None
   \<and> length (snd (getFeedMetaData endlessEnv (str ''https://x/feed.txt''))) = 1000
   \<and> list_all (\<lambda>v. scanLevel bareEnv v = None)
         (snd (getFeedMetaData bareEnv (str ''https://x/a/b/feed.txt'')))
   \<and> fst (getFeedMetaData bareEnv (str ''https://x/a/b/feed.txt'')) \<noteq> Inl TypeError
   \<and> fst (getFeedMetaData bareEnv (str ''https://x/a/b/feed.txt'')) = Inr None"
proof -
  note T = getFeedMetaData_terminates
  have bare: "scanLevel bareEnv v = None" for v
    by (rule scanLevel_no_network) (simp add: bareEnv_def sampleEnv_def)
  have a1: "climbs bareEnv threeLevels" by code_simp
  have a2: "hd threeLevels = Url_folderOf bareEnv (str ''https://x/a/b/feed.txt'')"
    by code_simp
  have a3: "length threeLevels \<le> 1000" by code_simp
  have a4: "new_URL bareEnv (str ''..'') (last threeLevels) = Some (last threeLevels)"
    by code_simp
  from T [of bareEnv "str ''https://x/a/b/feed.txt''"] a1 a2 a3 a4 bare
  have r1: "getFeedMetaData bareEnv (str ''https://x/a/b/feed.txt'') = (Inr None, threeLevels)"
    by blast
  have b1: "\<forall>v. scanLevel endlessEnv v = None"
    by (intro allI scanLevel_no_network) (simp add: endlessEnv_def sampleEnv_def)
  have b2: "\<forall>v. \<exists>w. new_URL endlessEnv (str ''..'') v = Some w \<and> w \<noteq> v"
    by (simp add: endlessEnv_def sampleEnv_def)
  from T [of endlessEnv "str ''https://x/feed.txt''"] b1 b2
  have r2: "fst (getFeedMetaData endlessEnv (str ''https://x/feed.txt'')) = Inr None"
           "length (snd (getFeedMetaData endlessEnv (str ''https://x/feed.txt''))) = 1000"
    by blast+
  have c1: "list_all (\<lambda>v. scanLevel bareEnv v = None)
              (snd (getFeedMetaData bareEnv (str ''https://x/a/b/feed.txt'')))"
    by (simp add: list_all_iff bare)
  have c2: "fst (getFeedMetaData bareEnv (str ''https://x/a/b/feed.txt'')) \<noteq> Inl TypeError"
    by (simp add: r1)
  from T [of bareEnv "str ''https://x/a/b/feed.txt''"] bare c2
  have r3: "fst (getFeedMetaData bareEnv (str ''https://x/a/b/feed.txt'')) = Inr None"
    by blast
  from a1 a2 a3 a4 bare r1 b1 b2 r2 c1 c2 r3 show ?thesis by blast
qed

text \<open>
  Against C9 as it is worded: for the feed URL "feed.txt" the folder is no base that the
  URL constructor accepts; the scan discovers nothing and ends in the TypeError of
  \<open>new URL("..", currentUrl)\<close>, not in \<open>null\<close>.
\<close>

theorem getFeedMetaData_throws_counterexample:
  "getFeedMetaData bareEnv (str ''feed.txt'')
     = (Inl TypeError, [Url_folderOf bareEnv (str ''feed.txt'')])
   \<and> scanLevel bareEnv (Url_folderOf bareEnv (str ''feed.txt'')) = None
   \<and> new_URL bareEnv (str ''..'') (Url_folderOf bareEnv (str ''feed.txt'')) = None
   \<and> fst (getFeedMetaData bareEnv (str ''feed.txt'')) \<noteq> Inr None"
  by code_simp

section \<open>Properties of getOmniviewFromFeed\<close>

lemma str_options [simp]:
  "str ''getPoster'' \<noteq> str ''fillBody''" "str ''fillBody'' \<noteq> str ''getPoster''"
  by (simp_all add: str_def)

text \<open>
  C10. When the Omniview library is there, the Omniview is made from the caller's own
  options object, in which \<open>getPoster\<close> and \<open>fillBody\<close> are now the two built-in functions
  over \<open>urls\<close>, whatever the caller had put there; the other properties of that object and
  the other objects are as they were.
\<close>

theorem getOmniviewFromFeed_defaults_win:
  assumes "Omniview_defined E" and "omniviewOptions < length objs"
  shows "\<exists>objs'. getOmniviewFromFeed E feedUrls omniviewOptions objs =
                    (Inr \<lparr>options = omniviewOptions\<rparr>, objs')
           \<and> (objs' ! omniviewOptions) (str ''getPoster'')
               = Some (Function (BuiltinGetPoster feedUrls))
           \<and> (objs' ! omniviewOptions) (str ''fillBody'')
               = Some (Function (BuiltinFillBody feedUrls))
           \<and> (\<forall>k. k \<noteq> str ''getPoster'' \<and> k \<noteq> str ''fillBody'' \<longrightarrow>
                  (objs' ! omniviewOptions) k = (objs ! omniviewOptions) k)
           \<and> (\<forall>j < length objs. j \<noteq> omniviewOptions \<longrightarrow> objs' ! j = objs ! j)"
  using assms
  by (simp add: getOmniviewFromFeed_def Object_assign_def Let_def nth_append map_add_def)

text \<open>A caller whose options hold a \<open>getPoster\<close> of its own and an \<open>anchorIndex\<close>.\<close>

theorem getOmniviewFromFeed_defaults_win_witness:
  "Omniview_defined offlineEnv \<and> 0 < length callerObjects
   \<and> (callerObjects ! 0) (str ''getPoster'') = Some (Function (Supplied 1))
   \<and> (\<exists>objs'. getOmniviewFromFeed offlineEnv [str ''https://x/a.html''] 0 callerObjects =
                    (Inr \<lparr>options = 0\<rparr>, objs')
           \<and> (objs' ! 0) (str ''getPoster'')
               = Some (Function (BuiltinGetPoster [str ''https://x/a.html'']))
           \<and> (objs' ! 0) (str ''fillBody'')
               = Some (Function (BuiltinFillBody [str ''https://x/a.html'']))
           \<and> (objs' ! 0) (str ''anchorIndex'') = Some (Number 3))"
proof -
  have h1: "Omniview_defined offlineEnv" by (simp add: offlineEnv_def sampleEnv_def)
  have h2: "0 < length callerObjects" by (simp add: callerObjects_def)
  have k: "str ''anchorIndex'' \<noteq> str ''getPoster'' \<and> str ''anchorIndex'' \<noteq> str ''fillBody''"
          "str ''getPoster'' \<noteq> str ''anchorIndex''"
    by (simp_all add: str_def)
  have c: "(callerObjects ! 0) (str ''getPoster'') = Some (Function (Supplied 1))"
     "(callerObjects ! 0) (str ''anchorIndex'') = Some (Number 3)"
    using k by (simp_all add: callerObjects_def)
  from getOmniviewFromFeed_defaults_win [OF h1 h2, of "[str ''https://x/a.html'']"] k c h1 h2
  show ?thesis by auto
qed

end
